theory Spec2Isabelle
  imports Main "HOL-Library.Char_ord" "HOL-Library.List_Lexorder"
begin

section \<open>Data model of \<^verbatim>\<open>main.py\<close>\<close>

text \<open>
  A \<^verbatim>\<open>datetime\<close> is the number of microseconds since the epoch (UTC), the resolution of
  Python's \<^verbatim>\<open>datetime\<close>. Python strings are \<open>string\<close>; the messages of the source that
  contain Latin-1 letters are written with the code point of the letter (\<open>CHR 0xE3\<close>).
\<close>

type_synonym datetime = int

datatype TaskStatusEnum = pending | completed

text \<open>
  The mapped classes \<^verbatim>\<open>DBUser\<close> and \<^verbatim>\<open>DBTask\<close>. An attribute of a \<^verbatim>\<open>DBTask\<close> object that
  \<^verbatim>\<open>update_task\<close> may set to \<^verbatim>\<open>None\<close> with \<^verbatim>\<open>setattr\<close> is an option; the columns
  \<^verbatim>\<open>title\<close> and \<^verbatim>\<open>status\<close> are \<^verbatim>\<open>nullable=False\<close>, which the store enforces when the session
  is flushed. The program gives every task it creates the id of the caller as \<^verbatim>\<open>user_id\<close>,
  so that attribute is an integer.
\<close>

record DBUser =
  u_id :: int
  u_name :: string
  u_email :: string
  u_hashed_password :: string
  u_created_at :: datetime
  u_updated_at :: datetime

record DBTask =
  t_id :: int
  t_title :: "string option"
  t_description :: "string option"
  t_status :: "TaskStatusEnum option"
  t_user_id :: int
  t_created_at :: datetime
  t_updated_at :: datetime

text \<open>The response models \<^verbatim>\<open>User\<close> and \<^verbatim>\<open>Task\<close> (pydantic, \<^verbatim>\<open>from_attributes\<close>).\<close>

record User =
  User_id :: int
  User_name :: string
  User_email :: string
  User_created_at :: datetime
  User_updated_at :: datetime

record Task =
  Task_id :: int
  Task_title :: string
  Task_description :: "string option"
  Task_status :: TaskStatusEnum
  Task_user_id :: int
  Task_created_at :: datetime
  Task_updated_at :: datetime

text \<open>
  The store behind a \<^verbatim>\<open>Session\<close>: the rows of the two tables in storage order and the
  auto-increment counters of their integer primary keys.
\<close>

record database =
  users :: "DBUser list"
  tasks :: "DBTask list"
  users_autoinc :: int
  tasks_autoinc :: int

text \<open>
  What a request ends with when it does not return a value: an \<^verbatim>\<open>HTTPException\<close> raised
  by the handler (status code, detail, headers), a rejection of the request by the
  declared parameter constraints (422), or an exception that no handler catches (500),
  named by its class.
\<close>

datatype error =
    HTTPException int string "(string \<times> string) list"
  | RequestValidationError
  | Unhandled string

definition task_not_found :: error where
  "task_not_found = HTTPException 404 (''Tarefa n'' @ [CHR 0xE3] @ ''o encontrada.'') []"

section \<open>Response models\<close>

text \<open>\<^verbatim>\<open>User.model_validate(db_user)\<close> reads the five declared attributes and nothing else.\<close>

definition User_model_validate :: "DBUser \<Rightarrow> User" where
  "User_model_validate u =
     \<lparr>User_id = u_id u, User_name = u_name u, User_email = u_email u,
      User_created_at = u_created_at u, User_updated_at = u_updated_at u\<rparr>"

text \<open>
  \<^verbatim>\<open>Task.model_validate(db_task)\<close>: \<^verbatim>\<open>title: str\<close> and \<^verbatim>\<open>status: TaskStatusEnum\<close> reject
  \<^verbatim>\<open>None\<close> with a pydantic \<^verbatim>\<open>ValidationError\<close>, which nothing catches.
\<close>

definition Task_model_validate :: "DBTask \<Rightarrow> error + Task" where
  "Task_model_validate t =
     (case (t_title t, t_status t) of
        (Some ti, Some st) \<Rightarrow>
          Inr \<lparr>Task_id = t_id t, Task_title = ti, Task_description = t_description t,
               Task_status = st, Task_user_id = t_user_id t,
               Task_created_at = t_created_at t, Task_updated_at = t_updated_at t\<rparr>
      | _ \<Rightarrow> Inl (Unhandled ''ValidationError''))"

section \<open>Owner-scoped task operations\<close>

text \<open>
  \<^verbatim>\<open>create_task\<close>, with the clock reading \<open>now\<close> of the store for both timestamps and the
  next value of the auto-increment counter for the id.
\<close>

record TaskCreate =
  tc_title :: string
  tc_description :: "string option"
  tc_status :: TaskStatusEnum

definition create_task ::
  "TaskCreate \<Rightarrow> User \<Rightarrow> datetime \<Rightarrow> database \<Rightarrow> (error + Task) \<times> database" where
  "create_task task_create current_user now db =
     (let db_task = \<lparr>t_id = tasks_autoinc db, t_title = Some (tc_title task_create),
                      t_description = tc_description task_create,
                      t_status = Some (tc_status task_create),
                      t_user_id = User_id current_user,
                      t_created_at = now, t_updated_at = now\<rparr>
      in (Task_model_validate db_task,
          db\<lparr>tasks := tasks db @ [db_task], tasks_autoinc := tasks_autoinc db + 1\<rparr>))"

text \<open>
  \<^verbatim>\<open>db.query(DBTask).filter(DBTask.id == task_id, DBTask.user_id == current_user.id).first()\<close>,
  the lookup that \<^verbatim>\<open>get_task_by_id\<close>, \<^verbatim>\<open>update_task\<close> and \<^verbatim>\<open>delete_task\<close> start with.
\<close>

definition query_task_first :: "database \<Rightarrow> int \<Rightarrow> User \<Rightarrow> DBTask option" where
  "query_task_first db task_id current_user =
     find (\<lambda>t. t_id t = task_id \<and> t_user_id t = User_id current_user) (tasks db)"

definition get_task_by_id :: "int \<Rightarrow> User \<Rightarrow> database \<Rightarrow> error + Task" where
  "get_task_by_id task_id current_user db =
     (case query_task_first db task_id current_user of
        None \<Rightarrow> Inl task_not_found
      | Some db_task \<Rightarrow> Task_model_validate db_task)"

text \<open>
  \<^verbatim>\<open>TaskUpdate\<close>: every field is optional with default \<^verbatim>\<open>None\<close>, and pydantic records which
  fields the payload set. A field is \<open>Unset\<close> when the payload omits it and \<open>Provided v\<close>
  when the payload gives it, \<open>v\<close> being \<open>None\<close> for an explicit \<^verbatim>\<open>null\<close>.
\<close>

datatype 'a field = Unset | Provided "'a option"

record TaskUpdate =
  tu_title :: "string field"
  tu_description :: "string field"
  tu_status :: "TaskStatusEnum field"

text \<open>
  \<^verbatim>\<open>task_update.model_dump(exclude_unset=True)\<close>: the items of the fields that were set, in
  the order of declaration.
\<close>

datatype update_item =
    Set_title "string option"
  | Set_description "string option"
  | Set_status "TaskStatusEnum option"

definition model_dump_exclude_unset :: "TaskUpdate \<Rightarrow> update_item list" where
  "model_dump_exclude_unset task_update =
     (case tu_title task_update of Unset \<Rightarrow> [] | Provided v \<Rightarrow> [Set_title v]) @
     (case tu_description task_update of Unset \<Rightarrow> [] | Provided v \<Rightarrow> [Set_description v]) @
     (case tu_status task_update of Unset \<Rightarrow> [] | Provided v \<Rightarrow> [Set_status v])"

fun setattr_task :: "update_item \<Rightarrow> DBTask \<Rightarrow> DBTask" where
  "setattr_task (Set_title v) db_task = db_task\<lparr>t_title := v\<rparr>"
| "setattr_task (Set_description v) db_task = db_task\<lparr>t_description := v\<rparr>"
| "setattr_task (Set_status v) db_task = db_task\<lparr>t_status := v\<rparr>"

text \<open>
  \<^verbatim>\<open>db.commit()\<close> followed by \<^verbatim>\<open>db.refresh(db_task)\<close> for a loaded task \<open>old\<close> whose attributes
  now read \<open>new\<close>. The session emits an \<^verbatim>\<open>UPDATE\<close> only when an attribute has a net change;
  the statement sets the changed columns and, through \<^verbatim>\<open>onupdate=func.now()\<close>, \<^verbatim>\<open>updated_at\<close>,
  on the row with the task's primary key. A changed column that is \<^verbatim>\<open>nullable=False\<close> and
  now \<^verbatim>\<open>NULL\<close> makes the statement fail with an \<^verbatim>\<open>IntegrityError\<close>, and nothing is written.
\<close>

definition commit_task_update ::
  "DBTask \<Rightarrow> DBTask \<Rightarrow> datetime \<Rightarrow> database \<Rightarrow> error + (DBTask \<times> database)" where
  "commit_task_update old new now db =
     (if new = old then Inr (old, db)
      else if (t_title new \<noteq> t_title old \<and> t_title new = None) \<or>
              (t_status new \<noteq> t_status old \<and> t_status new = None)
      then Inl (Unhandled ''IntegrityError'')
      else (let row = new\<lparr>t_updated_at := now\<rparr>
            in Inr (row, db\<lparr>tasks := map (\<lambda>r. if t_id r = t_id old then row else r) (tasks db)\<rparr>)))"

definition update_task ::
  "int \<Rightarrow> TaskUpdate \<Rightarrow> User \<Rightarrow> datetime \<Rightarrow> database \<Rightarrow> (error + Task) \<times> database" where
  "update_task task_id task_update current_user now db =
     (case query_task_first db task_id current_user of
        None \<Rightarrow> (Inl task_not_found, db)
      | Some db_task \<Rightarrow>
          (let updates = model_dump_exclude_unset task_update;
               db_task' = fold setattr_task updates db_task
           in case commit_task_update db_task db_task' now db of
                Inl e \<Rightarrow> (Inl e, db)
              | Inr (row, db') \<Rightarrow> (Task_model_validate row, db')))"

text \<open>\<^verbatim>\<open>db.delete(db_task); db.commit()\<close> deletes the row with the task's primary key.\<close>

definition delete_task :: "int \<Rightarrow> User \<Rightarrow> database \<Rightarrow> (error + unit) \<times> database" where
  "delete_task task_id current_user db =
     (case query_task_first db task_id current_user of
        None \<Rightarrow> (Inl task_not_found, db)
      | Some db_task \<Rightarrow>
          (Inr (), db\<lparr>tasks := filter (\<lambda>r. t_id r \<noteq> t_id db_task) (tasks db)\<rparr>))"

section \<open>Listing: filter, search, sort, paginate\<close>

text \<open>
  \<^verbatim>\<open>search.lower()\<close> and the SQL function \<^verbatim>\<open>lower\<close>, on the letters A to Z.
\<close>

definition lower_char :: "char \<Rightarrow> char" where
  "lower_char c =
     (if 65 \<le> (of_char c :: nat) \<and> (of_char c :: nat) \<le> 90 then char_of (of_char c + 32 :: nat) else c)"

definition lower :: "string \<Rightarrow> string" where
  "lower s = map lower_char s"

text \<open>
  The SQL operator \<^verbatim>\<open>LIKE\<close>, pattern first: \<^verbatim>\<open>%\<close> matches any run of characters, \<^verbatim>\<open>_\<close>
  any one character, and a backslash takes the character after it literally.
\<close>

fun like_match :: "string \<Rightarrow> string \<Rightarrow> bool" where
  "like_match [] s = (s = [])"
| "like_match (p # ps) s =
     (if p = CHR ''%'' then
        (like_match ps s \<or> (case s of [] \<Rightarrow> False | c # t \<Rightarrow> like_match (p # ps) t))
      else if p = CHR ''_'' then
        (case s of [] \<Rightarrow> False | c # t \<Rightarrow> like_match ps t)
      else if p = CHR 0x5C then
        (case ps of
           [] \<Rightarrow> s = [p]
         | q # qs \<Rightarrow> (case s of [] \<Rightarrow> False | c # t \<Rightarrow> c = q \<and> like_match qs t))
      else
        (case s of [] \<Rightarrow> False | c # t \<Rightarrow> c = p \<and> like_match ps t))"

text \<open>
  \<^verbatim>\<open>column.ilike(pattern)\<close>, which is \<^verbatim>\<open>lower(column) LIKE lower(pattern)\<close>, and the SQL
  \<^verbatim>\<open>OR\<close>, in three-valued logic: \<open>None\<close> is SQL's unknown, the value of a comparison
  with \<^verbatim>\<open>NULL\<close>. A \<^verbatim>\<open>WHERE\<close> clause keeps the rows whose condition is true.
\<close>

definition ilike :: "string option \<Rightarrow> string \<Rightarrow> bool option" where
  "ilike column pattern = map_option (\<lambda>s. like_match (lower pattern) (lower s)) column"

definition sql_or :: "bool option \<Rightarrow> bool option \<Rightarrow> bool option" where
  "sql_or a b =
     (if a = Some True \<or> b = Some True then Some True
      else if a = Some False \<and> b = Some False then Some False
      else None)"

text \<open>
  \<^verbatim>\<open>getattr(DBTask, sort_by)\<close> followed by \<^verbatim>\<open>.desc()\<close> or \<^verbatim>\<open>.asc()\<close>: the seven mapped columns
  give an ordering; for any other name one of the two calls raises.
\<close>

datatype task_column =
  Col_id | Col_title | Col_description | Col_status | Col_user_id | Col_created_at | Col_updated_at

definition getattr_DBTask :: "string \<Rightarrow> task_column option" where
  "getattr_DBTask name =
     (if name = ''id'' then Some Col_id
      else if name = ''title'' then Some Col_title
      else if name = ''description'' then Some Col_description
      else if name = ''status'' then Some Col_status
      else if name = ''user_id'' then Some Col_user_id
      else if name = ''created_at'' then Some Col_created_at
      else if name = ''updated_at'' then Some Col_updated_at
      else None)"

text \<open>
  The value of a column in a row, and the order of \<^verbatim>\<open>ORDER BY ... ASC\<close>: \<^verbatim>\<open>NULL\<close> first,
  integers and timestamps by value, an enumeration by the position of the member in its
  declaration, strings byte by byte.
\<close>

datatype sql_value = SQL_NULL | SQL_Int int | SQL_Str string

fun status_index :: "TaskStatusEnum \<Rightarrow> int" where
  "status_index pending = 1"
| "status_index completed = 2"

fun column_value :: "task_column \<Rightarrow> DBTask \<Rightarrow> sql_value" where
  "column_value Col_id t = SQL_Int (t_id t)"
| "column_value Col_title t = (case t_title t of None \<Rightarrow> SQL_NULL | Some s \<Rightarrow> SQL_Str s)"
| "column_value Col_description t =
     (case t_description t of None \<Rightarrow> SQL_NULL | Some s \<Rightarrow> SQL_Str s)"
| "column_value Col_status t =
     (case t_status t of None \<Rightarrow> SQL_NULL | Some s \<Rightarrow> SQL_Int (status_index s))"
| "column_value Col_user_id t = SQL_Int (t_user_id t)"
| "column_value Col_created_at t = SQL_Int (t_created_at t)"
| "column_value Col_updated_at t = SQL_Int (t_updated_at t)"

fun sql_le :: "sql_value \<Rightarrow> sql_value \<Rightarrow> bool" where
  "sql_le SQL_NULL v = True"
| "sql_le (SQL_Int a) SQL_NULL = False"
| "sql_le (SQL_Int a) (SQL_Int b) = (a \<le> b)"
| "sql_le (SQL_Int a) (SQL_Str b) = True"
| "sql_le (SQL_Str a) SQL_NULL = False"
| "sql_le (SQL_Str a) (SQL_Int b) = False"
| "sql_le (SQL_Str a) (SQL_Str b) = (a \<le> b)"

text \<open>
  \<^verbatim>\<open>query.order_by(...)\<close>: the rows sorted by insertion; rows that the ordering does not
  separate keep their storage order.
\<close>

fun insort_row :: "('a \<Rightarrow> 'a \<Rightarrow> bool) \<Rightarrow> 'a \<Rightarrow> 'a list \<Rightarrow> 'a list" where
  "insort_row le x [] = [x]"
| "insort_row le x (y # ys) = (if le x y then x # y # ys else y # insort_row le x ys)"

definition row_le :: "task_column \<Rightarrow> bool \<Rightarrow> DBTask \<Rightarrow> DBTask \<Rightarrow> bool" where
  "row_le col descending a b =
     (if descending then sql_le (column_value col b) (column_value col a)
      else sql_le (column_value col a) (column_value col b))"

definition order_by :: "task_column \<Rightarrow> bool \<Rightarrow> DBTask list \<Rightarrow> DBTask list" where
  "order_by col descending rows = foldr (insort_row (row_le col descending)) rows []"

text \<open>\<^verbatim>\<open>[Task.model_validate(task) for task in db_tasks]\<close>.\<close>

fun model_validate_all :: "DBTask list \<Rightarrow> error + Task list" where
  "model_validate_all [] = Inr []"
| "model_validate_all (t # ts) =
     (case Task_model_validate t of
        Inl e \<Rightarrow> Inl e
      | Inr x \<Rightarrow> (case model_validate_all ts of Inl e \<Rightarrow> Inl e | Inr xs \<Rightarrow> Inr (x # xs)))"

text \<open>Python's truth value of an \<^verbatim>\<open>Optional[str]\<close>: \<^verbatim>\<open>None\<close> and the empty string are false.\<close>

definition truthy :: "string option \<Rightarrow> bool" where
  "truthy s = (case s of None \<Rightarrow> False | Some x \<Rightarrow> x \<noteq> [])"

text \<open>
  The arguments of \<^verbatim>\<open>LIMIT\<close> and \<^verbatim>\<open>OFFSET\<close> are unsigned 64-bit integers in the store
  (MySQL, by \<^verbatim>\<open>DATABASE_URL\<close>), while \<^verbatim>\<open>page\<close> and \<^verbatim>\<open>limit\<close> are Python integers with no
  upper bound. The statement fails on a value outside that range, and nothing catches
  the exception of the driver.
\<close>

definition sql_limit_max :: int where
  "sql_limit_max = 18446744073709551615"

definition sql_limit_in_range :: "int \<Rightarrow> bool" where
  "sql_limit_in_range n = (0 \<le> n \<and> n \<le> sql_limit_max)"

text \<open>
  The body of \<^verbatim>\<open>get_tasks\<close>. The query is built first and runs at \<^verbatim>\<open>.all()\<close>; an exception
  while it is built (an unknown attribute, \<^verbatim>\<open>.lower()\<close> of \<^verbatim>\<open>None\<close>) ends the request
  before that.
\<close>

definition get_tasks ::
  "User \<Rightarrow> database \<Rightarrow> TaskStatusEnum option \<Rightarrow> string option \<Rightarrow> int \<Rightarrow> int \<Rightarrow>
   string option \<Rightarrow> string option \<Rightarrow> error + Task list" where
  "get_tasks current_user db status_filter search page limit sort_by sort_order =
     (let query0 = filter (\<lambda>t. t_user_id t = User_id current_user) (tasks db);
          query1 = (case status_filter of
                      None \<Rightarrow> query0
                    | Some st \<Rightarrow> filter (\<lambda>t. t_status t = Some st) query0);
          query2 = (if truthy search then
                      (let search_lower = ''%'' @ lower (the search) @ ''%''
                       in filter (\<lambda>t. sql_or (ilike (t_title t) search_lower)
                                            (ilike (t_description t) search_lower) = Some True)
                            query1)
                    else query1);
          query3 = (if truthy sort_by then
                      (case getattr_DBTask (the sort_by) of
                         None \<Rightarrow> Inl (Unhandled ''AttributeError'')
                       | Some sort_column \<Rightarrow>
                           (case sort_order of
                              None \<Rightarrow> Inl (Unhandled ''AttributeError'')
                            | Some so \<Rightarrow> Inr (order_by sort_column (lower so = ''desc'') query2)))
                    else Inr query2)
      in case query3 of
           Inl e \<Rightarrow> Inl e
         | Inr query \<Rightarrow>
             (let offset = (page - 1) * limit
              in if sql_limit_in_range offset \<and> sql_limit_in_range limit
                 then (let db_tasks = take (nat limit) (drop (nat offset) query)
                       in model_validate_all db_tasks)
                 else Inl (Unhandled ''ProgrammingError'')))"

text \<open>
  The route \<^verbatim>\<open>GET /tasks/\<close>: the declared query parameters, then the body. A parameter
  that the request omits takes its default; \<^verbatim>\<open>ge=1\<close> is a constraint that the framework
  checks, answering 422 when it fails. The \<^verbatim>\<open>enum=[...]\<close> of \<^verbatim>\<open>sort_by\<close> and
  \<^verbatim>\<open>sort_order\<close> is a keyword that \<^verbatim>\<open>Query\<close> copies into the generated schema; it is not
  a constraint, and no value is checked against it.
\<close>

definition get_tasks_route ::
  "User \<Rightarrow> database \<Rightarrow> TaskStatusEnum option \<Rightarrow> string option \<Rightarrow> int option \<Rightarrow> int option \<Rightarrow>
   string option \<Rightarrow> string option \<Rightarrow> error + Task list" where
  "get_tasks_route current_user db status_filter search page limit sort_by sort_order =
     (let page' = (case page of None \<Rightarrow> 1 | Some p \<Rightarrow> p);
          limit' = (case limit of None \<Rightarrow> 10 | Some l \<Rightarrow> l);
          sort_by' = (case sort_by of None \<Rightarrow> ''created_at'' | Some s \<Rightarrow> s);
          sort_order' = (case sort_order of None \<Rightarrow> ''desc'' | Some s \<Rightarrow> s)
      in if page' < 1 \<or> limit' < 1 then Inl RequestValidationError
         else get_tasks current_user db status_filter search page' limit'
                (Some sort_by') (Some sort_order'))"

section \<open>Bearer tokens\<close>

definition SECRET_KEY :: string where
  "SECRET_KEY = ''TESTE''"

definition ALGORITHM :: string where
  "ALGORITHM = ''HS256''"

definition ACCESS_TOKEN_EXPIRE_MINUTES :: int where
  "ACCESS_TOKEN_EXPIRE_MINUTES = 30"

text \<open>\<^verbatim>\<open>timedelta(minutes=m)\<close>, in microseconds.\<close>

definition timedelta_minutes :: "int \<Rightarrow> int" where
  "timedelta_minutes m = m * 60 * 1000000"

text \<open>
  \<^verbatim>\<open>timegm(d.utctimetuple())\<close>: the whole seconds of a \<^verbatim>\<open>datetime\<close>, the form in which the
  library \<^verbatim>\<open>jose\<close> writes and compares the time claims.
\<close>

definition timegm :: "datetime \<Rightarrow> int" where
  "timegm d = d div 1000000"

text \<open>
  The dictionary \<^verbatim>\<open>to_encode\<close> (the keys the program uses) and the payload of a token,
  where \<^verbatim>\<open>exp\<close> is a number of seconds.
\<close>

record claims =
  claim_sub :: "string option"
  claim_exp :: "datetime option"

record payload =
  payload_sub :: "string option"
  payload_exp :: "int option"

text \<open>
  A token is treated symbolically: \<open>JWS alg p k\<close> is the compact serialisation whose
  header names the algorithm \<open>alg\<close>, whose payload is \<open>p\<close> and whose signature was made
  with the key \<open>k\<close>, so that it verifies under \<open>k\<close> and under no other key; \<open>Malformed\<close>
  is any string that is not such a serialisation.
\<close>

datatype token = JWS string payload string | Malformed

datatype jwt_error = JWTError | ExpiredSignatureError

text \<open>
  \<^verbatim>\<open>jwt.encode(claims, key, algorithm)\<close> of \<^verbatim>\<open>jose\<close>: a \<^verbatim>\<open>datetime\<close> under \<^verbatim>\<open>exp\<close> becomes
  its whole seconds.
\<close>

definition jwt_encode :: "claims \<Rightarrow> string \<Rightarrow> string \<Rightarrow> token" where
  "jwt_encode to_encode key algorithm =
     JWS algorithm
       \<lparr>payload_sub = claim_sub to_encode, payload_exp = map_option timegm (claim_exp to_encode)\<rparr>
       key"

text \<open>
  \<^verbatim>\<open>jwt.decode(token, key, algorithms)\<close> of \<^verbatim>\<open>jose\<close> at the clock reading \<open>now\<close>: the
  algorithm of the header must be an allowed one and the signature must verify; then
  the expiry is checked as \<^verbatim>\<open>if exp < now: raise ExpiredSignatureError\<close>, both in whole
  seconds and with no leeway.
\<close>

definition jwt_decode :: "token \<Rightarrow> string \<Rightarrow> string list \<Rightarrow> datetime \<Rightarrow> jwt_error + payload" where
  "jwt_decode tok key algorithms now =
     (case tok of
        Malformed \<Rightarrow> Inl JWTError
      | JWS alg p k \<Rightarrow>
          if alg \<notin> set algorithms then Inl JWTError
          else if k \<noteq> key then Inl JWTError
          else (case payload_exp p of
                  None \<Rightarrow> Inr p
                | Some e \<Rightarrow> if e < timegm now then Inl ExpiredSignatureError else Inr p))"

text \<open>
  \<^verbatim>\<open>create_access_token\<close> at the clock reading \<open>now\<close> (\<^verbatim>\<open>datetime.utcnow()\<close>). A
  \<^verbatim>\<open>timedelta\<close> of zero is false in Python, as \<^verbatim>\<open>None\<close> is.
\<close>

definition create_access_token :: "claims \<Rightarrow> int option \<Rightarrow> datetime \<Rightarrow> token" where
  "create_access_token data expires_delta now =
     (let expire = (case expires_delta of
                      None \<Rightarrow> now + timedelta_minutes ACCESS_TOKEN_EXPIRE_MINUTES
                    | Some d \<Rightarrow> if d \<noteq> 0 then now + d
                                else now + timedelta_minutes ACCESS_TOKEN_EXPIRE_MINUTES);
          to_encode = data\<lparr>claim_exp := Some expire\<rparr>
      in jwt_encode to_encode SECRET_KEY ALGORITHM)"

text \<open>\<^verbatim>\<open>str(n)\<close> of a Python integer.\<close>

definition digit_char :: "nat \<Rightarrow> char" where
  "digit_char d = char_of (48 + d)"

fun str_nat :: "nat \<Rightarrow> string" where
  "str_nat n = (if n < 10 then [digit_char n] else str_nat (n div 10) @ [digit_char (n mod 10)])"

declare str_nat.simps [simp del]

definition str_int :: "int \<Rightarrow> string" where
  "str_int i = (if i < 0 then CHR ''-'' # str_nat (nat (- i)) else str_nat (nat i))"

text \<open>
  The subject of a token is a string, and \<^verbatim>\<open>DBUser.id == user_id\<close> compares the integer
  column with it. The store converts the string to a number for the comparison: an
  optional sign and the decimal digits that follow, zero when there are none. (Fractions
  and exponents, which \<^verbatim>\<open>str\<close> of an integer never writes, are left out.)
\<close>

definition is_digit :: "char \<Rightarrow> bool" where
  "is_digit c = (48 \<le> (of_char c :: nat) \<and> (of_char c :: nat) \<le> 57)"

fun digits_value :: "nat \<Rightarrow> string \<Rightarrow> nat" where
  "digits_value acc [] = acc"
| "digits_value acc (c # cs) =
     (if is_digit c then digits_value (10 * acc + (of_char c - 48)) cs else acc)"

definition sql_int_of_string :: "string \<Rightarrow> int" where
  "sql_int_of_string s =
     (case s of
        [] \<Rightarrow> 0
      | c # cs \<Rightarrow> if c = CHR ''-'' then - int (digits_value 0 cs)
                  else if c = CHR ''+'' then int (digits_value 0 cs)
                  else int (digits_value 0 s))"

definition credentials_exception :: error where
  "credentials_exception =
     HTTPException 401
       (''N'' @ [CHR 0xE3] @ ''o foi poss'' @ [CHR 0xED] @ ''vel validar as credenciais'')
       [(''WWW-Authenticate'', ''Bearer'')]"

text \<open>
  \<^verbatim>\<open>get_current_user\<close> at the clock reading \<open>now\<close>. Every exception, of the token library
  or any other, becomes the same \<^verbatim>\<open>credentials_exception\<close>.
\<close>

definition get_current_user :: "database \<Rightarrow> token \<Rightarrow> datetime \<Rightarrow> error + User" where
  "get_current_user db tok now =
     (case jwt_decode tok SECRET_KEY [ALGORITHM] now of
        Inl e \<Rightarrow> Inl credentials_exception
      | Inr p \<Rightarrow>
          (case payload_sub p of
             None \<Rightarrow> Inl credentials_exception
           | Some user_id \<Rightarrow>
               (case find (\<lambda>u. u_id u = sql_int_of_string user_id) (users db) of
                  None \<Rightarrow> Inl credentials_exception
                | Some user \<Rightarrow> Inr (User_model_validate user))))"

section \<open>Accounts\<close>

record UserCreate =
  uc_name :: string
  uc_email :: string
  uc_password :: string

record OAuth2PasswordRequestForm =
  form_username :: string
  form_password :: string

record TokenResponse =
  access_token :: token
  token_type :: string

definition email_already_registered :: error where
  "email_already_registered =
     HTTPException 409 (''E-mail j'' @ [CHR 0xE1] @ '' registrado.'') []"

definition invalid_credentials :: error where
  "invalid_credentials =
     HTTPException 401 (''Credenciais inv'' @ [CHR 0xE1] @ ''lidas'')
       [(''WWW-Authenticate'', ''Bearer'')]"

text \<open>
  \<^verbatim>\<open>register\<close>. The password hashing of the library \<^verbatim>\<open>bcrypt\<close> is a parameter:
  \<open>hashpw password salt\<close> stands for \<^verbatim>\<open>bcrypt.hashpw(password, salt)\<close>, and \<open>salt\<close> for
  the value that \<^verbatim>\<open>bcrypt.gensalt()\<close> draws for this call. The new row takes the next
  value of the auto-increment counter and the clock reading \<open>now\<close> of the store
  (\<^verbatim>\<open>func.now()\<close>) for both timestamps.
\<close>

definition register ::
  "(string \<Rightarrow> string \<Rightarrow> string) \<Rightarrow> string \<Rightarrow> UserCreate \<Rightarrow> datetime \<Rightarrow> database \<Rightarrow>
   (error + User) \<times> database" where
  "register hashpw salt user_create now db =
     (case find (\<lambda>u. u_email u = uc_email user_create) (users db) of
        Some db_user \<Rightarrow> (Inl email_already_registered, db)
      | None \<Rightarrow>
          (let hashed_password = hashpw (uc_password user_create) salt;
               db_user = \<lparr>u_id = users_autoinc db, u_name = uc_name user_create,
                          u_email = uc_email user_create, u_hashed_password = hashed_password,
                          u_created_at = now, u_updated_at = now\<rparr>
           in (Inr (User_model_validate db_user),
               db\<lparr>users := users db @ [db_user], users_autoinc := users_autoinc db + 1\<rparr>)))"

text \<open>
  \<^verbatim>\<open>bcrypt.checkpw(password, hashed_password)\<close>. The library raises \<^verbatim>\<open>ValueError\<close> for a
  password of more than 72 bytes; for every other password it returns the verdict of
  comparing the hashes, which is the parameter \<open>verdict\<close>. The password is the string of
  its UTF-8 bytes.
\<close>

definition bcrypt_checkpw ::
  "(string \<Rightarrow> string \<Rightarrow> bool) \<Rightarrow> string \<Rightarrow> string \<Rightarrow> error + bool" where
  "bcrypt_checkpw verdict password hashed_password =
     (if 72 < length password then Inl (Unhandled ''ValueError'')
      else Inr (verdict password hashed_password))"

text \<open>
  \<^verbatim>\<open>login\<close> at the clock reading \<open>now\<close>; \<open>checkpw password hashed\<close> stands for
  \<^verbatim>\<open>bcrypt.checkpw(password, hashed)\<close>, which returns a verdict or raises. The call is
  made only when a user with the e-mail was found, and nothing in \<^verbatim>\<open>login\<close> catches what
  it raises.
\<close>

definition login ::
  "(string \<Rightarrow> string \<Rightarrow> error + bool) \<Rightarrow> OAuth2PasswordRequestForm \<Rightarrow> datetime \<Rightarrow> database \<Rightarrow>
   error + TokenResponse" where
  "login checkpw form_data now db =
     (case find (\<lambda>u. u_email u = form_username form_data) (users db) of
        None \<Rightarrow> Inl invalid_credentials
      | Some db_user \<Rightarrow>
          (case checkpw (form_password form_data) (u_hashed_password db_user) of
             Inl e \<Rightarrow> Inl e
           | Inr ok \<Rightarrow>
               if \<not> ok then Inl invalid_credentials
               else (let access_token_expires = timedelta_minutes ACCESS_TOKEN_EXPIRE_MINUTES;
                         access_token =
                           create_access_token
                             \<lparr>claim_sub = Some (str_int (u_id db_user)), claim_exp = None\<rparr>
                             (Some access_token_expires) now
                     in Inr \<lparr>access_token = access_token, token_type = ''bearer''\<rparr>)))"

section \<open>Sample data\<close>

text \<open>
  Two accounts and a store for the examples below. \<open>demo_hashpw\<close> stands in for
  \<^verbatim>\<open>bcrypt.hashpw\<close> and \<open>demo_checkpw\<close> for the verdict of comparing a password with a hash;
  they keep the password readable inside the hash, which is enough to tell a right
  password from a wrong one in an example.
\<close>

definition demo_hashpw :: "string \<Rightarrow> string \<Rightarrow> string" where
  "demo_hashpw password salt = salt @ ''$'' @ password"

definition demo_checkpw :: "string \<Rightarrow> string \<Rightarrow> bool" where
  "demo_checkpw password hashed = (hashed = take 4 hashed @ ''$'' @ password)"

definition ana :: DBUser where
  "ana = \<lparr>u_id = 1, u_name = ''Ana'', u_email = ''ana@x.com'',
          u_hashed_password = ''salt$secret1'', u_created_at = 1000000, u_updated_at = 1000000\<rparr>"

definition bia :: DBUser where
  "bia = \<lparr>u_id = 2, u_name = ''Bia'', u_email = ''bia@x.com'',
          u_hashed_password = ''pepa$hunter22'', u_created_at = 2000000, u_updated_at = 2000000\<rparr>"

definition milk :: DBTask where
  "milk = \<lparr>t_id = 7, t_title = Some ''Buy milk'', t_description = Some ''two litres'',
           t_status = Some pending, t_user_id = 2, t_created_at = 3000000,
           t_updated_at = 3000000\<rparr>"

definition walk :: DBTask where
  "walk = \<lparr>t_id = 8, t_title = Some ''Walk the dog'', t_description = Some ''before noon'',
           t_status = Some pending, t_user_id = 1, t_created_at = 4000000,
           t_updated_at = 4000000\<rparr>"

definition db_empty :: database where
  "db_empty = \<lparr>users = [ana, bia], tasks = [], users_autoinc = 3, tasks_autoinc = 1\<rparr>"

definition db_tasks :: database where
  "db_tasks = \<lparr>users = [ana, bia], tasks = [milk, walk], users_autoinc = 3, tasks_autoinc = 9\<rparr>"

definition ana_user :: User where
  "ana_user = User_model_validate ana"

text \<open>Fifteen tasks of account 1, created one second apart, beside a task of account 2.\<close>

definition chore :: "int \<Rightarrow> DBTask" where
  "chore i = \<lparr>t_id = i, t_title = Some (''chore '' @ str_int i), t_description = None,
              t_status = Some pending, t_user_id = 1, t_created_at = 1000000 * i,
              t_updated_at = 1000000 * i\<rparr>"

definition chore_task :: "int \<Rightarrow> Task" where
  "chore_task i = \<lparr>Task_id = i, Task_title = ''chore '' @ str_int i, Task_description = None,
              Task_status = pending, Task_user_id = 1, Task_created_at = 1000000 * i,
              Task_updated_at = 1000000 * i\<rparr>"

definition db_chores :: database where
  "db_chores = \<lparr>users = [ana, bia], tasks = milk # map chore [11..25],
                users_autoinc = 3, tasks_autoinc = 26\<rparr>"

section \<open>Auxiliary facts\<close>

lemma find_SomeD: "find P xs = Some x \<Longrightarrow> P x \<and> x \<in> set xs"
  by (induction xs) (auto split: if_splits)

lemma find_None_iff_all: "find P xs = None \<longleftrightarrow> (\<forall>x\<in>set xs. \<not> P x)"
  by (induction xs) auto

lemma find_map_same:
  "(\<And>x. P (f x) = P x) \<Longrightarrow> find P (map f xs) = map_option f (find P xs)"
  by (induction xs) auto

lemma query_task_first_SomeD:
  "query_task_first db task_id cu = Some t \<Longrightarrow>
     t_id t = task_id \<and> t_user_id t = User_id cu \<and> t \<in> set (tasks db)"
  unfolding query_task_first_def by (drule find_SomeD) simp

lemma fold_setattr_task:
  "fold setattr_task (model_dump_exclude_unset u) t =
     t\<lparr>t_title := (case tu_title u of Unset \<Rightarrow> t_title t | Provided v \<Rightarrow> v),
       t_description := (case tu_description u of Unset \<Rightarrow> t_description t | Provided v \<Rightarrow> v),
       t_status := (case tu_status u of Unset \<Rightarrow> t_status t | Provided v \<Rightarrow> v)\<rparr>"
  by (simp add: model_dump_exclude_unset_def split: field.splits)

lemma find_replaced_row:
  assumes "t \<in> set xs" "t_id t = task_id" "t_id row = task_id" "t_user_id row = uid"
  shows "find (\<lambda>x. t_id x = task_id \<and> t_user_id x = uid)
           (map (\<lambda>r. if t_id r = task_id then row else r) xs) = Some row"
  using assms by (induction xs) auto

lemma map_replace_owner:
  assumes "distinct (map t_id xs)" "t \<in> set xs" "t_user_id row = t_user_id t"
  shows "map t_user_id (map (\<lambda>r. if t_id r = t_id t then row else r) xs) = map t_user_id xs"
proof -
  have "\<forall>x\<in>set xs. t_id x = t_id t \<longrightarrow> x = t"
    using assms(1,2) by (auto simp: distinct_map dest: inj_onD)
  then show ?thesis
    using assms(3) by (auto simp: map_eq_conv)
qed

lemma map_replace_id:
  assumes "t_id row = task_id"
  shows "map t_id (map (\<lambda>r. if t_id r = task_id then row else r) xs) = map t_id xs"
  using assms by (induction xs) auto

lemma Task_model_validate_InrD:
  "Task_model_validate x = Inr r \<Longrightarrow>
       Some (Task_title r) = t_title x \<and> Task_description r = t_description x
     \<and> Some (Task_status r) = t_status x \<and> Task_id r = t_id x
     \<and> Task_user_id r = t_user_id x \<and> Task_created_at r = t_created_at x
     \<and> Task_updated_at r = t_updated_at x"
  by (auto simp: Task_model_validate_def split: option.splits)

subsection \<open>Decimal strings\<close>

lemma of_char_digit_char: "d < 10 \<Longrightarrow> (of_char (digit_char d) :: nat) = 48 + d"
  by (simp add: digit_char_def)

lemma is_digit_digit_char: "d < 10 \<Longrightarrow> is_digit (digit_char d)"
  by (simp add: is_digit_def of_char_digit_char)

lemma digit_char_not_sign:
  assumes "d < 10"
  shows "digit_char d \<noteq> CHR ''-'' \<and> digit_char d \<noteq> CHR ''+''"
proof -
  have "(of_char (digit_char d) :: nat) \<noteq> of_char (CHR ''-'')"
       "(of_char (digit_char d) :: nat) \<noteq> of_char (CHR ''+'')"
    using assms by (simp_all add: of_char_digit_char)
  then show ?thesis by auto
qed

lemma digits_value_str_nat:
  "digits_value acc (str_nat n @ cs) = digits_value (acc * 10 ^ length (str_nat n) + n) cs"
proof (induction n arbitrary: acc cs rule: str_nat.induct)
  case (1 n)
  show ?case
  proof (cases "n < 10")
    case True
    then show ?thesis
      by (simp add: str_nat.simps [of n] is_digit_digit_char of_char_digit_char mult.commute)
  next
    case False
    have d: "n mod 10 < 10" by simp
    have "digits_value acc (str_nat n @ cs) =
          digits_value acc (str_nat (n div 10) @ (digit_char (n mod 10) # cs))"
      using False by (simp add: str_nat.simps [of n])
    also have "\<dots> = digits_value (acc * 10 ^ length (str_nat (n div 10)) + n div 10)
                        (digit_char (n mod 10) # cs)"
      using "1.IH" [OF False] by simp
    also have "\<dots> = digits_value
                        (10 * (acc * 10 ^ length (str_nat (n div 10)) + n div 10) + n mod 10) cs"
      using d by (simp add: is_digit_digit_char of_char_digit_char)
    also have "10 * (acc * 10 ^ length (str_nat (n div 10)) + n div 10) + n mod 10
             = acc * 10 ^ length (str_nat n) + n"
      using False by (simp add: str_nat.simps [of n] algebra_simps)
    finally show ?thesis .
  qed
qed

lemma str_nat_starts_with_digit: "\<exists>d cs. d < 10 \<and> str_nat n = digit_char d # cs"
proof (induction n rule: str_nat.induct)
  case (1 n)
  show ?case
  proof (cases "n < 10")
    case True
    then show ?thesis by (auto simp: str_nat.simps [of n])
  next
    case False
    from "1.IH" [OF False] obtain d cs where "d < 10" "str_nat (n div 10) = digit_char d # cs"
      by blast
    then show ?thesis using False by (auto simp: str_nat.simps [of n])
  qed
qed

text \<open>The store reads the subject that \<^verbatim>\<open>login\<close> writes as the id it was written from.\<close>

lemma sql_int_of_string_str_int: "sql_int_of_string (str_int i) = i"
proof (cases "i < 0")
  case True
  have "digits_value 0 (str_nat (nat (- i)) @ []) = nat (- i)"
    by (simp only: digits_value_str_nat) simp
  then show ?thesis using True by (simp add: str_int_def sql_int_of_string_def)
next
  case False
  obtain d cs where d: "d < 10" "str_nat (nat i) = digit_char d # cs"
    using str_nat_starts_with_digit by blast
  have v: "digits_value 0 (str_nat (nat i) @ []) = nat i"
    by (simp only: digits_value_str_nat) simp
  have "sql_int_of_string (str_nat (nat i)) = int (digits_value 0 (str_nat (nat i)))"
    using digit_char_not_sign [OF d(1)] by (simp add: sql_int_of_string_def d(2))
  then show ?thesis using False v by (simp add: str_int_def)
qed

subsection \<open>Tokens\<close>

lemma create_access_token_login:
  "create_access_token \<lparr>claim_sub = Some s, claim_exp = None\<rparr>
       (Some (timedelta_minutes ACCESS_TOKEN_EXPIRE_MINUTES)) t0
   = JWS ALGORITHM \<lparr>payload_sub = Some s,
                     payload_exp = Some (timegm (t0 + timedelta_minutes 30))\<rparr> SECRET_KEY"
  by (simp add: create_access_token_def jwt_encode_def ACCESS_TOKEN_EXPIRE_MINUTES_def
        timedelta_minutes_def Let_def)

lemma get_current_user_JWS:
  "get_current_user db
     (JWS ALGORITHM \<lparr>payload_sub = Some (str_int uid), payload_exp = Some e\<rparr> SECRET_KEY) now =
     (if e < timegm now then Inl credentials_exception
      else case find (\<lambda>u. u_id u = uid) (users db) of
             None \<Rightarrow> Inl credentials_exception
           | Some user \<Rightarrow> Inr (User_model_validate user))"
  by (simp add: get_current_user_def jwt_decode_def sql_int_of_string_str_int)

subsection \<open>Sorting and listing\<close>

lemma set_insort_row: "set (insort_row le x xs) = insert x (set xs)"
  by (induction xs) auto

lemma length_insort_row: "length (insort_row le x xs) = Suc (length xs)"
  by (induction xs) auto

lemma set_order_by: "set (order_by col d rows) = set rows"
  unfolding order_by_def by (induction rows) (simp_all add: set_insort_row)

lemma length_order_by: "length (order_by col d rows) = length rows"
  unfolding order_by_def by (induction rows) (simp_all add: length_insort_row)

lemma sorted_wrt_insort_row:
  assumes total: "\<And>a b. le a b \<or> le b a"
      and trans: "\<And>a b c. le a b \<Longrightarrow> le b c \<Longrightarrow> le a c"
  shows "sorted_wrt le xs \<Longrightarrow> sorted_wrt le (insort_row le x xs)"
proof (induction xs)
  case Nil
  then show ?case by simp
next
  case (Cons y ys)
  show ?case
  proof (cases "le x y")
    case True
    then show ?thesis using Cons.prems trans by auto
  next
    case False
    then have "le y x" using total by blast
    then show ?thesis using Cons False by (auto simp: set_insort_row)
  qed
qed

lemma count_list_insort_row: "count_list (insort_row le x xs) y = count_list (x # xs) y"
  by (induction xs) auto

lemma count_list_order_by: "count_list (order_by col d rows) y = count_list rows y"
  unfolding order_by_def by (induction rows) (simp_all add: count_list_insort_row)

lemma sql_le_total: "sql_le a b \<or> sql_le b a"
  by (cases a; cases b) auto

lemma sql_le_trans: "sql_le a b \<Longrightarrow> sql_le b c \<Longrightarrow> sql_le a c"
  by (cases a; cases b; cases c) auto

lemma sorted_order_by: "sorted_wrt (row_le col d) (order_by col d rows)"
  unfolding order_by_def
proof (induction rows)
  case Nil
  then show ?case by simp
next
  case (Cons r rows)
  have tot: "row_le col d a b \<or> row_le col d b a" for a b
    using sql_le_total by (auto simp: row_le_def)
  have tr: "row_le col d a b \<Longrightarrow> row_le col d b c \<Longrightarrow> row_le col d a c" for a b c
    using sql_le_trans by (auto simp: row_le_def split: if_splits)
  show ?case
    using sorted_wrt_insort_row [where le = "row_le col d", OF tot tr Cons.IH] by simp
qed

lemma model_validate_all_map:
  assumes "\<forall>t \<in> set rows. Task_model_validate t = Inr (f t)"
  shows "model_validate_all rows = Inr (map f rows)"
  using assms by (induction rows) auto


lemma get_tasks_route_sorted:
  assumes notnull: "\<forall>t \<in> set (tasks db). t_title t \<noteq> None \<and> t_status t \<noteq> None"
      and page: "1 \<le> page" and limit: "1 \<le> limit"
      and col: "getattr_DBTask (case sort_by of None \<Rightarrow> ''created_at'' | Some s \<Rightarrow> s) = Some col"
  shows "get_tasks_route current_user db status_filter search (Some page) (Some limit)
           sort_by sort_order =
     (if limit \<le> 18446744073709551615 \<and> (page - 1) * limit \<le> 18446744073709551615 then
     Inr (take (nat limit) (drop (nat ((page - 1) * limit))
       (map (\<lambda>t. \<lparr>Task_id = t_id t, Task_title = the (t_title t),
                    Task_description = t_description t, Task_status = the (t_status t),
                    Task_user_id = t_user_id t, Task_created_at = t_created_at t,
                    Task_updated_at = t_updated_at t\<rparr>)
          (order_by col (lower (case sort_order of None \<Rightarrow> ''desc'' | Some s \<Rightarrow> s) = ''desc'')
             (filter (\<lambda>t. t_user_id t = User_id current_user
                        \<and> (status_filter = None \<or> t_status t = status_filter)
                        \<and> (\<not> truthy search \<or>
                             sql_or (ilike (t_title t) (''%'' @ lower (the search) @ ''%''))
                                    (ilike (t_description t) (''%'' @ lower (the search) @ ''%''))
                             = Some True))
                (tasks db))))))
      else Inl (Unhandled ''ProgrammingError''))"
  (is "_ = (if _ then Inr (take _ (drop _ (map ?f (order_by _ ?d (filter ?M _))))) else _)")
proof -
  let ?q0 = "filter (\<lambda>t. t_user_id t = User_id current_user) (tasks db)"
  let ?q1 = "case status_filter of None \<Rightarrow> ?q0
             | Some st \<Rightarrow> filter (\<lambda>t. t_status t = Some st) ?q0"
  let ?q2 = "if truthy search then
               filter (\<lambda>t. sql_or (ilike (t_title t) (''%'' @ lower (the search) @ ''%''))
                                  (ilike (t_description t) (''%'' @ lower (the search) @ ''%''))
                            = Some True) ?q1
             else ?q1"
  let ?sb = "case sort_by of None \<Rightarrow> ''created_at'' | Some s \<Rightarrow> s"
  have q2: "?q2 = filter ?M (tasks db)"
    by (cases status_filter) (auto intro: filter_cong)
  have ne: "?sb \<noteq> []"
    using col by (auto simp: getattr_DBTask_def)
  have off: "0 \<le> (page - 1) * limit"
    using page limit by simp
  let ?rows = "take (nat limit) (drop (nat ((page - 1) * limit)) (order_by col ?d ?q2))"
  have route: "get_tasks_route current_user db status_filter search (Some page) (Some limit)
                 sort_by sort_order
      = (if limit \<le> 18446744073709551615 \<and> (page - 1) * limit \<le> 18446744073709551615
         then model_validate_all ?rows else Inl (Unhandled ''ProgrammingError''))"
    using page limit ne col off
    by (auto simp add: get_tasks_route_def get_tasks_def Let_def truthy_def
          sql_limit_in_range_def sql_limit_max_def)
  have "set ?rows \<subseteq> set (tasks db)"
  proof -
    have "set ?rows \<subseteq> set (order_by col ?d ?q2)"
      by (meson set_take_subset set_drop_subset subset_trans)
    also have "\<dots> = set ?q2" by (rule set_order_by)
    also have "\<dots> \<subseteq> set (tasks db)" unfolding q2 by simp
    finally show ?thesis .
  qed
  moreover have "Task_model_validate t = Inr (?f t)"
    if "t_title t \<noteq> None \<and> t_status t \<noteq> None" for t
    using that by (auto simp: Task_model_validate_def)
  ultimately have "\<forall>t \<in> set ?rows. Task_model_validate t = Inr (?f t)"
    using notnull by blast
  then have "model_validate_all ?rows = Inr (map ?f ?rows)"
    by (rule model_validate_all_map)
  then show ?thesis
    unfolding route q2 by (simp add: take_map drop_map)
qed

subsection \<open>Projections\<close>

lemma project_rehash:
  "User_model_validate (u\<lparr>u_hashed_password := h\<rparr>) = User_model_validate u"
  by (simp add: User_model_validate_def)

subsection \<open>The outcome of an update\<close>

text \<open>
  What \<^verbatim>\<open>update_task\<close> returns and stores for a task of the caller whose row satisfies the
  \<^verbatim>\<open>NOT NULL\<close> constraints, in terms of the object \<open>new\<close> that the \<^verbatim>\<open>setattr\<close> loop leaves.
\<close>

lemma update_task_outcome:
  assumes owned: "query_task_first db task_id current_user = Some t"
      and notnull: "t_title t \<noteq> None \<and> t_status t \<noteq> None"
      and res: "update_task task_id task_update current_user now db = (res, db')"
      and new: "new = fold setattr_task (model_dump_exclude_unset task_update) t"
  shows "case res of
           Inl e \<Rightarrow> db' = db
         | Inr r \<Rightarrow>
             Some (Task_title r) = t_title new \<and> Task_description r = t_description new
           \<and> Some (Task_status r) = t_status new
           \<and> Task_id r = t_id t \<and> Task_user_id r = t_user_id t
           \<and> Task_created_at r = t_created_at t
           \<and> Task_updated_at r = (if new = t then t_updated_at t else now)
           \<and> tasks db' = (if new = t then tasks db
                           else map (\<lambda>x. if t_id x = t_id t then new\<lparr>t_updated_at := now\<rparr> else x)
                                  (tasks db))
           \<and> get_task_by_id task_id current_user db' = Inr r"
proof -
  note q = query_task_first_SomeD [OF owned]
  have nk: "t_id new = t_id t" "t_user_id new = t_user_id t" "t_created_at new = t_created_at t"
    unfolding new fold_setattr_task by simp_all
  have upd: "update_task task_id task_update current_user now db =
      (case commit_task_update t new now db of
         Inl e \<Rightarrow> (Inl e, db)
       | Inr (row, db') \<Rightarrow> (Task_model_validate row, db'))"
    by (simp add: update_task_def owned new)
  show ?thesis
  proof (cases "new = t")
    case True
    then have c: "commit_task_update t new now db = Inr (t, db)"
      by (simp add: commit_task_update_def)
    have r: "res = Task_model_validate t" "db' = db"
      using res upd c by simp_all
    have g: "get_task_by_id task_id current_user db = Task_model_validate t"
      by (simp add: get_task_by_id_def owned)
    obtain x where vx: "Task_model_validate t = Inr x"
      using notnull by (auto simp: Task_model_validate_def)
    from Task_model_validate_InrD [OF vx] True g show ?thesis
      unfolding r vx by simp
  next
    case False
    show ?thesis
    proof (cases "(t_title new \<noteq> t_title t \<and> t_title new = None) \<or>
                  (t_status new \<noteq> t_status t \<and> t_status new = None)")
      case True
      then have "commit_task_update t new now db = Inl (Unhandled ''IntegrityError'')"
        using False by (simp add: commit_task_update_def)
      then show ?thesis using res upd by auto
    next
      case ok: False
      define row where "row = new\<lparr>t_updated_at := now\<rparr>"
      define dbn where
        "dbn = db\<lparr>tasks := map (\<lambda>r. if t_id r = t_id t then row else r) (tasks db)\<rparr>"
      have c: "commit_task_update t new now db = Inr (row, dbn)"
        using False ok by (simp add: commit_task_update_def row_def dbn_def Let_def)
      have r: "res = Task_model_validate row" "db' = dbn"
        using res upd c by simp_all
      have rowf: "t_id row = task_id" "t_user_id row = User_id current_user"
        "t_user_id row = t_user_id t" "t_title row = t_title new"
        "t_description row = t_description new" "t_status row = t_status new"
        "t_created_at row = t_created_at t" "t_updated_at row = now" "t_id row = t_id t"
        using q nk by (simp_all add: row_def)
      have g: "get_task_by_id task_id current_user dbn = Task_model_validate row"
        using find_replaced_row [of t "tasks db" task_id row "User_id current_user"] q rowf
        by (simp add: get_task_by_id_def query_task_first_def dbn_def)
      have "t_title new \<noteq> None" "t_status new \<noteq> None"
        using ok notnull by auto
      then obtain x where vx: "Task_model_validate row = Inr x"
        using rowf by (auto simp: Task_model_validate_def)
      have ts: "tasks dbn = map (\<lambda>x. if t_id x = t_id t then new\<lparr>t_updated_at := now\<rparr> else x) (tasks db)"
        by (simp add: dbn_def row_def)
      from Task_model_validate_InrD [OF vx] False g q ts show ?thesis
        unfolding r vx by (simp add: rowf)
    qed
  qed
qed

section \<open>Ownership: a task of another account is not found\<close>

text \<open>
  Claim C1. Let the caller be any authenticated user and \<open>task_id\<close> any id. In a store
  \<open>db\<close> that has no task with that id at all, and in a store \<open>db'\<close> where every task with
  that id belongs to another owner, \<^verbatim>\<open>get_task_by_id\<close>, \<^verbatim>\<open>update_task\<close> and \<^verbatim>\<open>delete_task\<close>
  all end with the same \<^verbatim>\<open>HTTPException\<close> 404 \<open>task_not_found\<close>, whose detail is a fixed
  message: no data of the task is returned, the two causes give equal results, and the
  store is left as it was.
\<close>

theorem not_owned_is_not_found:
  assumes absent: "\<forall>t \<in> set (tasks db). t_id t \<noteq> task_id"
      and foreign: "\<forall>t \<in> set (tasks db'). t_id t = task_id \<longrightarrow> t_user_id t \<noteq> User_id current_user"
  shows "get_task_by_id task_id current_user db = Inl task_not_found
       \<and> get_task_by_id task_id current_user db' = Inl task_not_found
       \<and> update_task task_id task_update current_user now db = (Inl task_not_found, db)
       \<and> update_task task_id task_update current_user now db' = (Inl task_not_found, db')
       \<and> delete_task task_id current_user db = (Inl task_not_found, db)
       \<and> delete_task task_id current_user db' = (Inl task_not_found, db')"
proof -
  have a: "query_task_first db task_id current_user = None"
    using absent by (simp add: query_task_first_def find_None_iff_all)
  have b: "query_task_first db' task_id current_user = None"
    using foreign by (auto simp add: query_task_first_def find_None_iff_all)
  show ?thesis
    by (simp add: get_task_by_id_def update_task_def delete_task_def a b)
qed

text \<open>
  An instance for C1: task 7 does not exist in \<open>db_empty\<close>, and in \<open>db_tasks\<close> it belongs to
  account 2; account 1 asks for it.
\<close>

theorem not_owned_is_not_found_witness:
  "7 \<notin> set (map t_id (tasks db_empty))
 \<and> filter (\<lambda>t. t_id t = 7) (tasks db_tasks) = [milk]
 \<and> t_user_id milk = 2 \<and> User_id ana_user = 1
 \<and> get_task_by_id 7 ana_user db_empty = Inl task_not_found
 \<and> get_task_by_id 7 ana_user db_tasks = Inl task_not_found
 \<and> update_task 7 \<lparr>tu_title = Provided (Some ''mine''), tu_description = Unset, tu_status = Unset\<rparr>
      ana_user 5000000 db_empty = (Inl task_not_found, db_empty)
 \<and> update_task 7 \<lparr>tu_title = Provided (Some ''mine''), tu_description = Unset, tu_status = Unset\<rparr>
      ana_user 5000000 db_tasks = (Inl task_not_found, db_tasks)
 \<and> delete_task 7 ana_user db_empty = (Inl task_not_found, db_empty)
 \<and> delete_task 7 ana_user db_tasks = (Inl task_not_found, db_tasks)"
proof -
  have a: "\<forall>t \<in> set (tasks db_empty). t_id t \<noteq> 7"
    by (simp add: db_empty_def)
  have b: "\<forall>t \<in> set (tasks db_tasks). t_id t = 7 \<longrightarrow> t_user_id t \<noteq> User_id ana_user"
    by (simp add: db_tasks_def milk_def walk_def ana_user_def User_model_validate_def ana_def)
  have c: "7 \<notin> set (map t_id (tasks db_empty))"
          "filter (\<lambda>t. t_id t = 7) (tasks db_tasks) = [milk]"
          "t_user_id milk = 2" "User_id ana_user = 1"
    by (simp_all add: db_empty_def db_tasks_def milk_def walk_def ana_user_def
          User_model_validate_def ana_def)
  from not_owned_is_not_found [OF a b] c show ?thesis by blast
qed

section \<open>Partial update\<close>

text \<open>
  Claim C3, as the program has it. For an update of a task \<open>t\<close> that the caller owns, in
  a store whose primary keys are distinct and where \<open>t\<close> satisfies the \<^verbatim>\<open>NOT NULL\<close>
  constraints: when the call fails the store is unchanged; when it returns a task \<open>r\<close>,
  each of \<^verbatim>\<open>title\<close>, \<^verbatim>\<open>description\<close> and \<^verbatim>\<open>status\<close> has the supplied value if the payload
  supplied it and its previous value if not; id, owner and creation time are the previous
  ones; \<^verbatim>\<open>updated_at\<close> is the store's clock reading if the value of one of the three fields
  changed, and the previous \<^verbatim>\<open>updated_at\<close> if none did; the owner and the id of every row of
  the table are as before, every row with another id is still there, and reading the
  task back gives \<open>r\<close>.
\<close>

theorem update_task_changes_only_supplied_fields:
  assumes pk: "distinct (map t_id (tasks db))"
      and owned: "query_task_first db task_id current_user = Some t"
      and notnull: "t_title t \<noteq> None \<and> t_status t \<noteq> None"
      and res: "update_task task_id task_update current_user now db = (res, db')"
  shows "case res of
           Inl e \<Rightarrow> db' = db
         | Inr r \<Rightarrow>
             Some (Task_title r) =
               (case tu_title task_update of Unset \<Rightarrow> t_title t | Provided v \<Rightarrow> v)
           \<and> Task_description r =
               (case tu_description task_update of Unset \<Rightarrow> t_description t | Provided v \<Rightarrow> v)
           \<and> Some (Task_status r) =
               (case tu_status task_update of Unset \<Rightarrow> t_status t | Provided v \<Rightarrow> v)
           \<and> Task_id r = t_id t \<and> Task_user_id r = t_user_id t
           \<and> Task_created_at r = t_created_at t
           \<and> Task_updated_at r =
               (if Some (Task_title r) \<noteq> t_title t \<or> Task_description r \<noteq> t_description t
                   \<or> Some (Task_status r) \<noteq> t_status t
                then now else t_updated_at t)
           \<and> map t_user_id (tasks db') = map t_user_id (tasks db)
           \<and> map t_id (tasks db') = map t_id (tasks db)
           \<and> (\<forall>x \<in> set (tasks db). t_id x \<noteq> task_id \<longrightarrow> x \<in> set (tasks db'))
           \<and> get_task_by_id task_id current_user db' = Inr r"
proof -
  note q = query_task_first_SomeD [OF owned]
  define new where "new = fold setattr_task (model_dump_exclude_unset task_update) t"
  have nt: "t_title new = (case tu_title task_update of Unset \<Rightarrow> t_title t | Provided v \<Rightarrow> v)"
    and nd: "t_description new =
               (case tu_description task_update of Unset \<Rightarrow> t_description t | Provided v \<Rightarrow> v)"
    and ns: "t_status new = (case tu_status task_update of Unset \<Rightarrow> t_status t | Provided v \<Rightarrow> v)"
    and nk: "t_id new = t_id t" "t_user_id new = t_user_id t" "t_created_at new = t_created_at t"
            "t_updated_at new = t_updated_at t"
    unfolding new_def fold_setattr_task by simp_all
  note fin = update_task_outcome [OF owned notnull res new_def]
  have eq: "new = t \<longleftrightarrow> t_title new = t_title t \<and> t_description new = t_description t
                     \<and> t_status new = t_status t"
    using nk by auto
  show ?thesis
  proof (cases res)
    case (Inl e)
    then show ?thesis using fin by simp
  next
    case (Inr x)
    with fin have f: "Some (Task_title x) = t_title new" "Task_description x = t_description new"
      "Some (Task_status x) = t_status new"
      "Task_updated_at x = (if new = t then t_updated_at t else now)"
      and ts: "tasks db' = (if new = t then tasks db
                           else map (\<lambda>x. if t_id x = t_id t then new\<lparr>t_updated_at := now\<rparr> else x)
                                  (tasks db))"
      and rest: "Task_id x = t_id t" "Task_user_id x = t_user_id t"
        "Task_created_at x = t_created_at t" "get_task_by_id task_id current_user db' = Inr x"
      by simp_all
    have up: "Task_updated_at x =
               (if Some (Task_title x) \<noteq> t_title t \<or> Task_description x \<noteq> t_description t
                   \<or> Some (Task_status x) \<noteq> t_status t
                then now else t_updated_at t)"
      unfolding f eq by simp
    have fields: "Some (Task_title x) =
               (case tu_title task_update of Unset \<Rightarrow> t_title t | Provided v \<Rightarrow> v)"
      "Task_description x =
               (case tu_description task_update of Unset \<Rightarrow> t_description t | Provided v \<Rightarrow> v)"
      "Some (Task_status x) =
               (case tu_status task_update of Unset \<Rightarrow> t_status t | Provided v \<Rightarrow> v)"
      using f nt nd ns by simp_all
    have o: "map t_user_id (tasks db') = map t_user_id (tasks db)"
      using map_replace_owner [OF pk, of t "new\<lparr>t_updated_at := now\<rparr>"] q nk ts by simp
    have i: "map t_id (tasks db') = map t_id (tasks db)"
      using map_replace_id [of "new\<lparr>t_updated_at := now\<rparr>" "t_id t" "tasks db"] nk ts by simp
    have u: "\<forall>x \<in> set (tasks db). t_id x \<noteq> task_id \<longrightarrow> x \<in> set (tasks db')"
      using q ts by (auto simp: image_iff)
    show ?thesis
      unfolding Inr using up fields o i u rest by simp
  qed
qed

text \<open>
  Claim C3 as the specification words it has \<^verbatim>\<open>updated_at\<close> refreshed by every successful
  update. The payload \<^verbatim>\<open>{"status": "pending"}\<close> on task 8, whose status is pending already,
  succeeds at the clock reading 9000000 and returns the task with its \<^verbatim>\<open>updated_at\<close> of
  4000000; the store is unchanged.
\<close>

theorem equal_value_update_keeps_updated_at:
  "update_task 8 \<lparr>tu_title = Unset, tu_description = Unset, tu_status = Provided (Some pending)\<rparr>
      ana_user 9000000 db_tasks
    = (Inr \<lparr>Task_id = 8, Task_title = ''Walk the dog'', Task_description = Some ''before noon'',
            Task_status = pending, Task_user_id = 1, Task_created_at = 4000000,
            Task_updated_at = 4000000\<rparr>,
       db_tasks)"
  by code_simp

text \<open>An instance for C3: \<^verbatim>\<open>{"status": "completed"}\<close> on task 8 of account 1.\<close>

theorem update_task_changes_only_supplied_fields_witness:
  "distinct (map t_id (tasks db_tasks))
 \<and> query_task_first db_tasks 8 ana_user = Some walk
 \<and> t_title walk \<noteq> None \<and> t_status walk \<noteq> None
 \<and> update_task 8 \<lparr>tu_title = Unset, tu_description = Unset, tu_status = Provided (Some completed)\<rparr>
      ana_user 9000000 db_tasks
    = (Inr \<lparr>Task_id = 8, Task_title = ''Walk the dog'', Task_description = Some ''before noon'',
            Task_status = completed, Task_user_id = 1, Task_created_at = 4000000,
            Task_updated_at = 9000000\<rparr>,
       db_tasks\<lparr>tasks := [milk, walk\<lparr>t_status := Some completed, t_updated_at := 9000000\<rparr>]\<rparr>)
 \<and> get_task_by_id 8 ana_user
       (db_tasks\<lparr>tasks := [milk, walk\<lparr>t_status := Some completed, t_updated_at := 9000000\<rparr>]\<rparr>)
    = Inr \<lparr>Task_id = 8, Task_title = ''Walk the dog'', Task_description = Some ''before noon'',
            Task_status = completed, Task_user_id = 1, Task_created_at = 4000000,
            Task_updated_at = 9000000\<rparr>"
proof -
  have pk: "distinct (map t_id (tasks db_tasks))"
    by (simp add: db_tasks_def milk_def walk_def)
  have owned: "query_task_first db_tasks 8 ana_user = Some walk"
    by (simp add: query_task_first_def db_tasks_def milk_def walk_def ana_user_def
          User_model_validate_def ana_def)
  have notnull: "t_title walk \<noteq> None \<and> t_status walk \<noteq> None"
    by (simp add: walk_def)
  have res: "update_task 8 \<lparr>tu_title = Unset, tu_description = Unset, tu_status = Provided (Some completed)\<rparr>
      ana_user 9000000 db_tasks
    = (Inr \<lparr>Task_id = 8, Task_title = ''Walk the dog'', Task_description = Some ''before noon'',
            Task_status = completed, Task_user_id = 1, Task_created_at = 4000000,
            Task_updated_at = 9000000\<rparr>,
       db_tasks\<lparr>tasks := [milk, walk\<lparr>t_status := Some completed, t_updated_at := 9000000\<rparr>]\<rparr>)"
    by code_simp
  from update_task_changes_only_supplied_fields [OF pk owned notnull res]
  have "get_task_by_id 8 ana_user
       (db_tasks\<lparr>tasks := [milk, walk\<lparr>t_status := Some completed, t_updated_at := 9000000\<rparr>]\<rparr>)
    = Inr \<lparr>Task_id = 8, Task_title = ''Walk the dog'', Task_description = Some ''before noon'',
            Task_status = completed, Task_user_id = 1, Task_created_at = 4000000,
            Task_updated_at = 9000000\<rparr>"
    by (auto simp only: sum.case)
  with pk owned notnull res show ?thesis by blast
qed

text \<open>
  Claim C10. On a task that the caller owns (its row satisfying the \<^verbatim>\<open>NOT NULL\<close>
  constraints), the payload \<^verbatim>\<open>{"description": null}\<close> succeeds, returns a task without
  description and stores it so; a payload that omits \<^verbatim>\<open>description\<close> and succeeds returns
  and stores the previous description.
\<close>

theorem explicit_null_clears_description:
  assumes owned: "query_task_first db task_id current_user = Some t"
      and notnull: "t_title t \<noteq> None \<and> t_status t \<noteq> None"
  shows "(\<exists>r db'. update_task task_id
                    \<lparr>tu_title = Unset, tu_description = Provided None, tu_status = Unset\<rparr>
                    current_user now db = (Inr r, db')
               \<and> Task_description r = None
               \<and> get_task_by_id task_id current_user db' = Inr r)
       \<and> (tu_description task_update = Unset \<longrightarrow>
            update_task task_id task_update current_user now db = (Inr r', db'') \<longrightarrow>
              Task_description r' = t_description t
            \<and> get_task_by_id task_id current_user db'' = Inr r')"
proof -
  let ?null = "\<lparr>tu_title = Unset, tu_description = Provided None, tu_status = Unset\<rparr>"
  define new where "new = fold setattr_task (model_dump_exclude_unset ?null) t"
  have new: "new = t\<lparr>t_description := None\<rparr>"
    unfolding new_def fold_setattr_task by simp
  obtain res db' where res: "update_task task_id ?null current_user now db = (res, db')"
    by (cases "update_task task_id ?null current_user now db") 
  note fin = update_task_outcome [OF owned notnull res new_def]
  have "\<exists>r. res = Inr r"
  proof (cases res)
    case (Inl e)
    have "commit_task_update t new now db \<noteq> Inl x" for x
      using notnull by (auto simp: commit_task_update_def new Let_def)
    then obtain row dbn where c: "commit_task_update t new now db = Inr (row, dbn)"
      by (cases "commit_task_update t new now db") auto
    then have row: "row = t \<or> row = new\<lparr>t_updated_at := now\<rparr>"
      by (auto simp: commit_task_update_def Let_def split: if_splits)
    have "res = Task_model_validate row"
      using res c by (simp add: update_task_def owned new_def)
    moreover have "\<exists>x. Task_model_validate row = Inr x"
      using row notnull by (auto simp: Task_model_validate_def new)
    ultimately show ?thesis by auto
  next
    case (Inr r)
    then show ?thesis by blast
  qed
  then obtain r where r: "res = Inr r" by blast
  have first: "\<exists>r db'. update_task task_id ?null current_user now db = (Inr r, db')
               \<and> Task_description r = None
               \<and> get_task_by_id task_id current_user db' = Inr r"
    using fin res unfolding r by (auto simp: new)
  have second: "Task_description r' = t_description t
            \<and> get_task_by_id task_id current_user db'' = Inr r'"
    if unset: "tu_description task_update = Unset"
      and res': "update_task task_id task_update current_user now db = (Inr r', db'')"
  proof -
    from update_task_outcome [OF owned notnull res' refl]
    show ?thesis by (simp add: fold_setattr_task unset)
  qed
  from first second show ?thesis by blast
qed

text \<open>An instance for C10: task 8 of account 1, first cleared, then renamed with no description given.\<close>

theorem explicit_null_clears_description_witness:
  "query_task_first db_tasks 8 ana_user = Some walk
 \<and> t_title walk \<noteq> None \<and> t_status walk \<noteq> None
 \<and> t_description walk = Some ''before noon''
 \<and> (\<exists>r db'. update_task 8 \<lparr>tu_title = Unset, tu_description = Provided None, tu_status = Unset\<rparr>
               ana_user 9000000 db_tasks = (Inr r, db')
          \<and> Task_description r = None \<and> get_task_by_id 8 ana_user db' = Inr r)
 \<and> tu_description \<lparr>tu_title = Provided (Some ''Walk''), tu_description = Unset, tu_status = Unset\<rparr> = Unset
 \<and> update_task 8 \<lparr>tu_title = Provided (Some ''Walk''), tu_description = Unset, tu_status = Unset\<rparr>
      ana_user 9000000 db_tasks
    = (Inr \<lparr>Task_id = 8, Task_title = ''Walk'', Task_description = Some ''before noon'',
            Task_status = pending, Task_user_id = 1, Task_created_at = 4000000,
            Task_updated_at = 9000000\<rparr>,
       db_tasks\<lparr>tasks := [milk, walk\<lparr>t_title := Some ''Walk'', t_updated_at := 9000000\<rparr>]\<rparr>)
 \<and> Task_description \<lparr>Task_id = 8, Task_title = ''Walk'', Task_description = Some ''before noon'',
            Task_status = pending, Task_user_id = 1, Task_created_at = 4000000,
            Task_updated_at = 9000000\<rparr> = t_description walk"
proof -
  have owned: "query_task_first db_tasks 8 ana_user = Some walk"
    by (simp add: query_task_first_def db_tasks_def milk_def walk_def ana_user_def
          User_model_validate_def ana_def)
  have notnull: "t_title walk \<noteq> None \<and> t_status walk \<noteq> None"
    by (simp add: walk_def)
  have d: "t_description walk = Some ''before noon''"
    by (simp add: walk_def)
  have unset: "tu_description \<lparr>tu_title = Provided (Some ''Walk''), tu_description = Unset, tu_status = Unset\<rparr> = Unset"
    by simp
  have res: "update_task 8 \<lparr>tu_title = Provided (Some ''Walk''), tu_description = Unset, tu_status = Unset\<rparr>
      ana_user 9000000 db_tasks
    = (Inr \<lparr>Task_id = 8, Task_title = ''Walk'', Task_description = Some ''before noon'',
            Task_status = pending, Task_user_id = 1, Task_created_at = 4000000,
            Task_updated_at = 9000000\<rparr>,
       db_tasks\<lparr>tasks := [milk, walk\<lparr>t_title := Some ''Walk'', t_updated_at := 9000000\<rparr>]\<rparr>)"
    by code_simp
  note th = explicit_null_clears_description [OF owned notnull, of 9000000
      "\<lparr>tu_title = Provided (Some ''Walk''), tu_description = Unset, tu_status = Unset\<rparr>"
      "\<lparr>Task_id = 8, Task_title = ''Walk'', Task_description = Some ''before noon'',
            Task_status = pending, Task_user_id = 1, Task_created_at = 4000000,
            Task_updated_at = 9000000\<rparr>"
      "db_tasks\<lparr>tasks := [milk, walk\<lparr>t_title := Some ''Walk'', t_updated_at := 9000000\<rparr>]\<rparr>"]
  from th owned notnull d unset res show ?thesis by blast
qed

section \<open>Token lifetime\<close>

text \<open>
  Claim C2, as the program has it. A token issued for the user \<open>uid\<close> at \<open>t0\<close> carries the
  subject \<open>str uid\<close> and the expiry \<open>t0 + 30 min\<close> in whole seconds. It is accepted, and
  resolves to the stored user with that id, at every \<open>now\<close> whose whole second is not
  after the expiry's, which covers every \<open>now \<le> t0 + 30 min\<close>, the instant of expiry
  included. It is rejected, the library raising \<^verbatim>\<open>ExpiredSignatureError\<close> and
  \<^verbatim>\<open>get_current_user\<close> answering 401, at every \<open>now\<close> whose whole second is after the
  expiry's, which covers every \<open>now \<ge> t0 + 30 min + 1 s\<close>.
\<close>

theorem token_valid_through_expiry_second:
  assumes user: "find (\<lambda>u. u_id u = uid) (users db) = Some u"
  shows "let tok = create_access_token \<lparr>claim_sub = Some (str_int uid), claim_exp = None\<rparr>
                     (Some (timedelta_minutes ACCESS_TOKEN_EXPIRE_MINUTES)) t0;
             expire = t0 + timedelta_minutes 30;
             p = \<lparr>payload_sub = Some (str_int uid), payload_exp = Some (timegm expire)\<rparr>
         in tok = JWS ALGORITHM p SECRET_KEY
          \<and> User_id (User_model_validate u) = uid
          \<and> (timegm now \<le> timegm expire \<longrightarrow>
                 jwt_decode tok SECRET_KEY [ALGORITHM] now = Inr p
               \<and> get_current_user db tok now = Inr (User_model_validate u))
          \<and> (timegm expire < timegm now \<longrightarrow>
                 jwt_decode tok SECRET_KEY [ALGORITHM] now = Inl ExpiredSignatureError
               \<and> get_current_user db tok now = Inl credentials_exception)
          \<and> (now \<le> expire \<longrightarrow> get_current_user db tok now = Inr (User_model_validate u))
          \<and> (expire + 1000000 \<le> now \<longrightarrow> get_current_user db tok now = Inl credentials_exception)"
proof -
  have id: "u_id u = uid" using find_SomeD [OF user] by simp
  have mono: "n \<le> e \<Longrightarrow> timegm n \<le> timegm e" for n e :: int
    unfolding timegm_def by (rule zdiv_mono1) simp_all
  have late: "e + 1000000 \<le> n \<Longrightarrow> timegm e < timegm n" for n e :: int
  proof -
    assume "e + 1000000 \<le> n"
    then have "(e + 1000000) div 1000000 \<le> n div 1000000" by (rule zdiv_mono1) simp
    then show ?thesis by (simp add: timegm_def)
  qed
  show ?thesis
    unfolding Let_def create_access_token_login get_current_user_JWS
    using mono [of now "t0 + timedelta_minutes 30"] late [of "t0 + timedelta_minutes 30" now]
    by (auto simp: jwt_decode_def user User_model_validate_def id)
qed

text \<open>
  Claim C2 as the specification words it has the token fail at every \<open>now \<ge> t0 + 30 min\<close>.
  At \<open>now = t0 + 30 min\<close> the comparison \<^verbatim>\<open>exp < now\<close> is false, and the token issued at
  \<open>0\<close> for account 1 is accepted.
\<close>

theorem token_at_expiry_instant_is_accepted:
  "get_current_user db_empty
     (create_access_token \<lparr>claim_sub = Some (str_int 1), claim_exp = None\<rparr>
        (Some (timedelta_minutes ACCESS_TOKEN_EXPIRE_MINUTES)) 0)
     (0 + timedelta_minutes 30) = Inr (User_model_validate ana)"
  by code_simp

text \<open>An instance for C2: the token issued at \<open>0\<close>, read at 29 and at 31 minutes.\<close>

theorem token_valid_through_expiry_second_witness:
  "find (\<lambda>u. u_id u = 1) (users db_empty) = Some ana
 \<and> get_current_user db_empty
     (create_access_token \<lparr>claim_sub = Some (str_int 1), claim_exp = None\<rparr>
        (Some (timedelta_minutes ACCESS_TOKEN_EXPIRE_MINUTES)) 0)
     (timedelta_minutes 29) = Inr (User_model_validate ana)
 \<and> get_current_user db_empty
     (create_access_token \<lparr>claim_sub = Some (str_int 1), claim_exp = None\<rparr>
        (Some (timedelta_minutes ACCESS_TOKEN_EXPIRE_MINUTES)) 0)
     (timedelta_minutes 31) = Inl credentials_exception"
proof -
  have h: "find (\<lambda>u. u_id u = 1) (users db_empty) = Some ana"
    by (simp add: db_empty_def ana_def)
  have a: "timedelta_minutes 29 \<le> 0 + timedelta_minutes 30"
    and b: "0 + timedelta_minutes 30 + 1000000 \<le> timedelta_minutes 31"
    by (simp_all add: timedelta_minutes_def)
  note early = token_valid_through_expiry_second [OF h, of 0 "timedelta_minutes 29", unfolded Let_def]
  note late = token_valid_through_expiry_second [OF h, of 0 "timedelta_minutes 31", unfolded Let_def]
  from early a late b h show ?thesis by blast
qed

section \<open>Login\<close>

text \<open>
  Claim C5 does not hold of the program. \<^verbatim>\<open>login\<close> raises one and the same exception 401
  for an unknown e-mail and for a wrong password, but it calls \<^verbatim>\<open>bcrypt.checkpw\<close> only
  when the e-mail exists and does not catch what the call raises. With a password of 73
  bytes the unknown e-mail \<^verbatim>\<open>zed@x.com\<close> gets the 401 and the registered e-mail
  \<^verbatim>\<open>ana@x.com\<close> gets an uncaught \<^verbatim>\<open>ValueError\<close> (500): the answer tells whether the e-mail
  exists.
\<close>

theorem long_password_reveals_existing_email:
  "login (bcrypt_checkpw demo_checkpw)
     \<lparr>form_username = ''zed@x.com'', form_password = replicate 73 (CHR ''a'')\<rparr> 0 db_empty
     = Inl invalid_credentials
 \<and> login (bcrypt_checkpw demo_checkpw)
     \<lparr>form_username = ''ana@x.com'', form_password = replicate 73 (CHR ''a'')\<rparr> 0 db_empty
     = Inl (Unhandled ''ValueError'')
 \<and> login (bcrypt_checkpw demo_checkpw)
     \<lparr>form_username = ''ana@x.com'', form_password = ''wrong''\<rparr> 0 db_empty
     = Inl invalid_credentials"
  by code_simp

section \<open>Registration\<close>



section \<open>Listing\<close>

text \<open>
  Claim C7, as the program has it. In a store whose task rows satisfy the \<^verbatim>\<open>NOT NULL\<close>
  constraints, for every caller, every status and search filter and every declared value
  of \<^verbatim>\<open>sort_by\<close> and \<^verbatim>\<open>sort_order\<close> (or none), there is one sequence \<open>ordered\<close>: the tasks of
  the caller that pass the filters, each as often as it is stored, sorted by the chosen
  column in the chosen direction (by \<^verbatim>\<open>created_at\<close>, descending, when none is given). A
  request for \<open>page \<ge> 1\<close> and \<open>limit \<ge> 1\<close>, where \<open>limit\<close> and \<open>(page - 1) * limit\<close> do not
  exceed \<open>2\<^sup>6\<^sup>4 - 1\<close>, returns the at most \<open>limit\<close> elements of \<open>ordered\<close> after the first
  \<open>(page - 1) * limit\<close>, and so the empty sequence when \<open>(page - 1) * limit\<close> is at least the
  length of \<open>ordered\<close>. When \<open>limit\<close> or \<open>(page - 1) * limit\<close> exceeds \<open>2\<^sup>6\<^sup>4 - 1\<close> the statement
  fails in the store and the request ends with an uncaught exception (500). A request
  without page and limit returns the first ten elements.
\<close>

theorem list_is_sorted_and_paginated:
  assumes notnull: "\<forall>t \<in> set (tasks db). t_title t \<noteq> None \<and> t_status t \<noteq> None"
      and sort_by: "sort_by \<in> {None, Some ''created_at'', Some ''updated_at'', Some ''title'',
                               Some ''status''}"
      and sort_order: "sort_order \<in> {None, Some ''asc'', Some ''desc''}"
  shows "\<exists>rows ordered.
      (\<forall>t. count_list rows t =
             count_list (filter (\<lambda>t. t_user_id t = User_id current_user
              \<and> (status_filter = None \<or> t_status t = status_filter)
              \<and> (\<not> truthy search \<or>
                   sql_or (ilike (t_title t) (''%'' @ lower (the search) @ ''%''))
                          (ilike (t_description t) (''%'' @ lower (the search) @ ''%''))
                   = Some True)) (tasks db)) t)
    \<and> list_all2 (\<lambda>t x. Task_model_validate t = Inr x) rows ordered
    \<and> set ordered =
        {x. \<exists>t \<in> set (tasks db). Task_model_validate t = Inr x
              \<and> t_user_id t = User_id current_user
              \<and> (status_filter = None \<or> t_status t = status_filter)
              \<and> (\<not> truthy search \<or>
                   sql_or (ilike (t_title t) (''%'' @ lower (the search) @ ''%''))
                          (ilike (t_description t) (''%'' @ lower (the search) @ ''%''))
                   = Some True)}
    \<and> length ordered =
        length (filter (\<lambda>t. t_user_id t = User_id current_user
              \<and> (status_filter = None \<or> t_status t = status_filter)
              \<and> (\<not> truthy search \<or>
                   sql_or (ilike (t_title t) (''%'' @ lower (the search) @ ''%''))
                          (ilike (t_description t) (''%'' @ lower (the search) @ ''%''))
                   = Some True)) (tasks db))
    \<and> (sort_by \<in> {None, Some ''created_at''} \<longrightarrow>
          sorted_wrt (\<lambda>a b. if sort_order = Some ''asc''
                             then Task_created_at a \<le> Task_created_at b
                             else Task_created_at b \<le> Task_created_at a) ordered)
    \<and> (sort_by = Some ''updated_at'' \<longrightarrow>
          sorted_wrt (\<lambda>a b. if sort_order = Some ''asc''
                             then Task_updated_at a \<le> Task_updated_at b
                             else Task_updated_at b \<le> Task_updated_at a) ordered)
    \<and> (sort_by = Some ''title'' \<longrightarrow>
          sorted_wrt (\<lambda>a b. if sort_order = Some ''asc''
                             then Task_title a \<le> Task_title b
                             else Task_title b \<le> Task_title a) ordered)
    \<and> (sort_by = Some ''status'' \<longrightarrow>
          sorted_wrt (\<lambda>a b. if sort_order = Some ''asc''
                             then Task_status a = pending \<or> Task_status b = completed
                             else Task_status b = pending \<or> Task_status a = completed) ordered)
    \<and> (\<forall>page limit. 1 \<le> page \<longrightarrow> 1 \<le> limit \<longrightarrow> limit \<le> 18446744073709551615 \<longrightarrow>
          (page - 1) * limit \<le> 18446744073709551615 \<longrightarrow>
          get_tasks_route current_user db status_filter search (Some page) (Some limit)
            sort_by sort_order
            = Inr (take (nat limit) (drop (nat ((page - 1) * limit)) ordered)))
    \<and> (\<forall>page limit. 1 \<le> page \<longrightarrow> 1 \<le> limit \<longrightarrow> limit \<le> 18446744073709551615 \<longrightarrow>
          (page - 1) * limit \<le> 18446744073709551615 \<longrightarrow>
          int (length ordered) \<le> (page - 1) * limit \<longrightarrow>
          get_tasks_route current_user db status_filter search (Some page) (Some limit)
            sort_by sort_order
            = Inr [])
    \<and> (\<forall>page limit. 1 \<le> page \<longrightarrow> 1 \<le> limit \<longrightarrow>
          18446744073709551615 < limit \<or> 18446744073709551615 < (page - 1) * limit \<longrightarrow>
          get_tasks_route current_user db status_filter search (Some page) (Some limit)
            sort_by sort_order
            = Inl (Unhandled ''ProgrammingError''))
    \<and> get_tasks_route current_user db status_filter search None None sort_by sort_order
         = Inr (take 10 ordered)"
proof -
  let ?M = "\<lambda>t. t_user_id t = User_id current_user
              \<and> (status_filter = None \<or> t_status t = status_filter)
              \<and> (\<not> truthy search \<or>
                   sql_or (ilike (t_title t) (''%'' @ lower (the search) @ ''%''))
                          (ilike (t_description t) (''%'' @ lower (the search) @ ''%''))
                   = Some True)"
  let ?f = "\<lambda>t. \<lparr>Task_id = t_id t, Task_title = the (t_title t),
                    Task_description = t_description t, Task_status = the (t_status t),
                    Task_user_id = t_user_id t, Task_created_at = t_created_at t,
                    Task_updated_at = t_updated_at t\<rparr>"
  let ?d = "lower (case sort_order of None \<Rightarrow> ''desc'' | Some s \<Rightarrow> s) = ''desc''"
  obtain col where col:
    "getattr_DBTask (case sort_by of None \<Rightarrow> ''created_at'' | Some s \<Rightarrow> s) = Some col"
    using sort_by by (auto simp: getattr_DBTask_def)
  define rows where "rows = order_by col ?d (filter ?M (tasks db))"
  define ordered where "ordered = map ?f rows"
  have sub: "set rows \<subseteq> set (tasks db)"
    by (auto simp: rows_def set_order_by)
  have val: "Task_model_validate t = Inr x \<longleftrightarrow> x = ?f t" if "t \<in> set (tasks db)" for t x
    using notnull that by (auto simp: Task_model_validate_def)
  have c: "\<forall>t. count_list rows t = count_list (filter ?M (tasks db)) t"
    by (simp add: rows_def count_list_order_by)
  have a2: "list_all2 (\<lambda>t x. Task_model_validate t = Inr x) rows ordered"
    unfolding ordered_def list_all2_map2 using sub val by (auto intro!: list_all2_same [THEN iffD2])
  have m: "set ordered =
        {x. \<exists>t \<in> set (tasks db). Task_model_validate t = Inr x \<and> ?M t}"
    unfolding ordered_def rows_def using val by (auto simp: set_order_by)
  have l: "length ordered = length (filter ?M (tasks db))"
    by (simp add: ordered_def rows_def length_order_by)
  have dir: "?d \<longleftrightarrow> sort_order \<noteq> Some ''asc''"
    using sort_order by (auto simp: lower_def lower_char_def)
  have srt: "sorted_wrt (row_le col ?d) rows"
    unfolding rows_def by (rule sorted_order_by)
  have nn: "t_title t \<noteq> None \<and> t_status t \<noteq> None" if "t \<in> set rows" for t
    using that sub notnull by blast
  have mono: "sorted_wrt Q ordered"
    if "\<And>a b. a \<in> set rows \<Longrightarrow> b \<in> set rows \<Longrightarrow> row_le col ?d a b \<Longrightarrow> Q (?f a) (?f b)"
    for Q
  proof -
    have "sorted_wrt (\<lambda>a b. Q (?f a) (?f b)) rows"
      using that srt by (rule sorted_wrt_mono_rel)
    then show ?thesis by (simp add: ordered_def sorted_wrt_map)
  qed
  have s1: "sorted_wrt (\<lambda>a b. if sort_order = Some ''asc''
                             then Task_created_at a \<le> Task_created_at b
                             else Task_created_at b \<le> Task_created_at a) ordered"
    if "sort_by \<in> {None, Some ''created_at''}"
  proof -
    from that col have "col = Col_created_at" by (auto simp: getattr_DBTask_def)
    then show ?thesis
      by (intro mono) (auto simp: row_le_def dir split: if_splits)
  qed
  have s2: "sorted_wrt (\<lambda>a b. if sort_order = Some ''asc''
                             then Task_updated_at a \<le> Task_updated_at b
                             else Task_updated_at b \<le> Task_updated_at a) ordered"
    if "sort_by = Some ''updated_at''"
  proof -
    from that col have "col = Col_updated_at" by (auto simp: getattr_DBTask_def)
    then show ?thesis
      by (intro mono) (auto simp: row_le_def dir split: if_splits)
  qed
  have s3: "sorted_wrt (\<lambda>a b. if sort_order = Some ''asc''
                             then Task_title a \<le> Task_title b
                             else Task_title b \<le> Task_title a) ordered"
    if "sort_by = Some ''title''"
  proof -
    from that col have "col = Col_title" by (auto simp: getattr_DBTask_def)
    then show ?thesis
      by (intro mono) (auto simp: row_le_def dir split: if_splits dest!: nn)
  qed
  have s4: "sorted_wrt (\<lambda>a b. if sort_order = Some ''asc''
                             then Task_status a = pending \<or> Task_status b = completed
                             else Task_status b = pending \<or> Task_status a = completed) ordered"
    if "sort_by = Some ''status''"
  proof -
    from that col have "col = Col_status" by (auto simp: getattr_DBTask_def)
    moreover have "status_index x \<le> status_index y \<longleftrightarrow> x = pending \<or> y = completed" for x y
      by (cases x; cases y) auto
    ultimately show ?thesis
      by (intro mono) (auto simp: row_le_def dir split: if_splits dest!: nn)
  qed
  note route = get_tasks_route_sorted [OF notnull _ _ col, of _ _ current_user status_filter search
      sort_order, folded rows_def, folded ordered_def]
  have p: "get_tasks_route current_user db status_filter search (Some page) (Some limit)
             sort_by sort_order
            = Inr (take (nat limit) (drop (nat ((page - 1) * limit)) ordered))"
    if "1 \<le> page" "1 \<le> limit" "limit \<le> 18446744073709551615"
       "(page - 1) * limit \<le> 18446744073709551615" for page limit
    using route [OF that(1,2)] that(3,4) by simp
  have e: "get_tasks_route current_user db status_filter search (Some page) (Some limit)
             sort_by sort_order = Inr []"
    if "1 \<le> page" "1 \<le> limit" "limit \<le> 18446744073709551615"
       "(page - 1) * limit \<le> 18446744073709551615"
       "int (length ordered) \<le> (page - 1) * limit" for page limit
  proof -
    have "length ordered \<le> nat ((page - 1) * limit)" using that(5) by linarith
    then show ?thesis using p [OF that(1-4)] by simp
  qed
  have x: "get_tasks_route current_user db status_filter search (Some page) (Some limit)
             sort_by sort_order = Inl (Unhandled ''ProgrammingError'')"
    if "1 \<le> page" "1 \<le> limit"
       "18446744073709551615 < limit \<or> 18446744073709551615 < (page - 1) * limit" for page limit
    using route [OF that(1,2)] that(3) by auto
  have d: "get_tasks_route current_user db status_filter search None None sort_by sort_order
         = Inr (take 10 ordered)"
  proof -
    have "get_tasks_route current_user db status_filter search None None sort_by sort_order
        = get_tasks_route current_user db status_filter search (Some 1) (Some 10)
            sort_by sort_order"
      by (simp add: get_tasks_route_def)
    then show ?thesis using p [of 1 10] by simp
  qed
  from c a2 m l s1 s2 s3 s4 p e x d show ?thesis by blast
qed

text \<open>
  Claim C7 as the specification words it has every page beyond the data return the empty
  sequence, never an error. Page \<open>10\<^sup>2\<^sup>0\<close> with \<^verbatim>\<open>limit=10\<close> over the fifteen tasks of account
  1 ends with an error.
\<close>

theorem page_beyond_store_range_is_an_error:
  "get_tasks_route ana_user db_chores None None (Some 100000000000000000000) (Some 10) None None
     = Inl (Unhandled ''ProgrammingError'')"
  by code_simp

text \<open>
  An instance for C7: fifteen tasks of account 1 and \<^verbatim>\<open>limit=10\<close>. Page 1 is the ten newest, page
  2 the remaining five in the same order, page 3 is empty; sorted by title, ascending,
  page 2 is the five last titles; a page whose offset is \<open>2\<^sup>6\<^sup>4\<close> ends with an error.
\<close>

theorem list_is_sorted_and_paginated_witness:
  "list_all (\<lambda>t. t_title t \<noteq> None \<and> t_status t \<noteq> None) (tasks db_chores)
 \<and> (\<exists>ordered. length ordered = 15
       \<and> sorted_wrt (\<lambda>a b. Task_created_at b \<le> Task_created_at a) ordered
       \<and> get_tasks_route ana_user db_chores None None (Some 1) (Some 10) None None
           = Inr (take 10 ordered)
       \<and> get_tasks_route ana_user db_chores None None (Some 2) (Some 10) None None
           = Inr (take 10 (drop 10 ordered))
       \<and> get_tasks_route ana_user db_chores None None (Some 3) (Some 10) None None = Inr [])
 \<and> get_tasks_route ana_user db_chores None None (Some 1) (Some 10) None None
     = Inr (map chore_task [25, 24, 23, 22, 21, 20, 19, 18, 17, 16])
 \<and> get_tasks_route ana_user db_chores None None (Some 2) (Some 10) None None
     = Inr (map chore_task [15, 14, 13, 12, 11])
 \<and> get_tasks_route ana_user db_chores None None (Some 3) (Some 10) None None = Inr []
 \<and> get_tasks_route ana_user db_chores None None (Some 2) (Some 10) (Some ''title'') (Some ''asc'')
     = Inr (map chore_task [21, 22, 23, 24, 25])
 \<and> get_tasks_route ana_user db_chores None None (Some 18446744073709551617) (Some 1) None None
     = Inl (Unhandled ''ProgrammingError'')"
proof -
  have la: "list_all (\<lambda>t. t_title t \<noteq> None \<and> t_status t \<noteq> None) (tasks db_chores)"
    by code_simp
  then have notnull: "\<forall>t \<in> set (tasks db_chores). t_title t \<noteq> None \<and> t_status t \<noteq> None"
    by (simp add: list_all_iff)
  have n: "length (filter (\<lambda>t. t_user_id t = User_id ana_user
              \<and> ((None :: TaskStatusEnum option) = None \<or> t_status t = None)
              \<and> (\<not> truthy None \<or>
                   sql_or (ilike (t_title t) (''%'' @ lower (the None) @ ''%''))
                          (ilike (t_description t) (''%'' @ lower (the None) @ ''%''))
                   = Some True)) (tasks db_chores)) = 15"
    by (simp add: truthy_def) code_simp
  have sb: "(None :: string option) \<in> {None, Some ''created_at'', Some ''updated_at'',
              Some ''title'', Some ''status''}"
    and so: "(None :: string option) \<in> {None, Some ''asc'', Some ''desc''}"
    by simp_all
  from list_is_sorted_and_paginated [OF notnull sb so, of ana_user None None]
  obtain ordered where
    s: "(None :: string option) \<in> {None, Some ''created_at''} \<longrightarrow>
          sorted_wrt (\<lambda>a b. if (None :: string option) = Some ''asc''
                             then Task_created_at a \<le> Task_created_at b
                             else Task_created_at b \<le> Task_created_at a) ordered"
    and l: "length ordered = 15"
    and p: "\<And>page limit. 1 \<le> page \<Longrightarrow> 1 \<le> limit \<Longrightarrow> limit \<le> 18446744073709551615 \<Longrightarrow>
          (page - 1) * limit \<le> 18446744073709551615 \<Longrightarrow>
          get_tasks_route ana_user db_chores None None (Some page) (Some limit) None None
            = Inr (take (nat limit) (drop (nat ((page - 1) * limit)) ordered))"
    and x: "\<And>page limit. 1 \<le> page \<Longrightarrow> 1 \<le> limit \<Longrightarrow>
          18446744073709551615 < limit \<or> 18446744073709551615 < (page - 1) * limit \<Longrightarrow>
          get_tasks_route ana_user db_chores None None (Some page) (Some limit) None None
            = Inl (Unhandled ''ProgrammingError'')"
    unfolding n by blast
  from s have s': "sorted_wrt (\<lambda>a b. Task_created_at b \<le> Task_created_at a) ordered"
    by simp
  have p1: "get_tasks_route ana_user db_chores None None (Some 1) (Some 10) None None
           = Inr (take 10 ordered)"
    using p [of 1 10] by simp
  have p2: "get_tasks_route ana_user db_chores None None (Some 2) (Some 10) None None
           = Inr (take 10 (drop 10 ordered))"
    using p [of 2 10] by simp
  have p3: "get_tasks_route ana_user db_chores None None (Some 3) (Some 10) None None = Inr []"
    using p [of 3 10] l by simp
  have p4: "get_tasks_route ana_user db_chores None None (Some 18446744073709551617) (Some 1)
              None None = Inl (Unhandled ''ProgrammingError'')"
    using x [of 18446744073709551617 1] by simp
  have e1: "get_tasks_route ana_user db_chores None None (Some 1) (Some 10) None None
     = Inr (map chore_task [25, 24, 23, 22, 21, 20, 19, 18, 17, 16])"
    by code_simp
  have e2: "get_tasks_route ana_user db_chores None None (Some 2) (Some 10) None None
     = Inr (map chore_task [15, 14, 13, 12, 11])"
    by code_simp
  have e3: "get_tasks_route ana_user db_chores None None (Some 2) (Some 10) (Some ''title'')
              (Some ''asc'')
     = Inr (map chore_task [21, 22, 23, 24, 25])"
    by code_simp
  from la s' l p1 p2 p3 p4 e1 e2 e3 show ?thesis by blast
qed

text \<open>
  Claim C4 does not hold of the program. \<^verbatim>\<open>sort_order=sideways\<close> is not rejected: the body
  compares its lower case with \<^verbatim>\<open>"desc"\<close> and sorts ascending otherwise. \<^verbatim>\<open>sort_by=id\<close>, a
  column outside the declared four, is not rejected either and sorts by that column.
  \<^verbatim>\<open>sort_by=bogus\<close> ends in an uncaught \<^verbatim>\<open>AttributeError\<close> (500), not in a validation error.
\<close>

theorem undeclared_sort_values_are_accepted:
  "get_tasks_route ana_user db_chores None None None (Some 3) None (Some ''sideways'')
     = Inr (map chore_task [11, 12, 13])
 \<and> get_tasks_route ana_user db_chores None None None (Some 3) (Some ''id'') (Some ''desc'')
     = Inr (map chore_task [25, 24, 23])
 \<and> get_tasks_route ana_user db_chores None None None (Some 3) (Some ''bogus'') (Some ''desc'')
     = Inl (Unhandled ''AttributeError'')"
  by code_simp

section \<open>The password hash stays inside\<close>

text \<open>
  Claim C8. Replace every stored hash by any other (\<open>h u\<close> for the user \<open>u\<close>), and the
  password, the salt and the hash function of a registration by any others: what
  \<^verbatim>\<open>register\<close> returns is the same, what \<^verbatim>\<open>get_current_user\<close> returns is the same, and what
  \<^verbatim>\<open>login\<close> returns is the same whenever the verdicts of \<^verbatim>\<open>checkpw\<close> on the stored users
  are the same. A user returned by \<^verbatim>\<open>register\<close> consists of the new id, the name and e-mail
  of the request and the two timestamps; a user returned by \<^verbatim>\<open>get_current_user\<close> consists
  of the id, name, e-mail and timestamps of a stored user.
\<close>

theorem password_hash_never_returned:
  "(let db' = db\<lparr>users := map (\<lambda>u. u\<lparr>u_hashed_password := h u\<rparr>) (users db)\<rparr>
    in fst (register hashpw' salt' (user_create\<lparr>uc_password := password'\<rparr>) now db')
         = fst (register hashpw salt user_create now db)
     \<and> get_current_user db' tok now = get_current_user db tok now
     \<and> ((\<forall>u \<in> set (users db).
            checkpw' password' (h u) = checkpw (form_password form_data) (u_hashed_password u)) \<longrightarrow>
          login checkpw' (form_data\<lparr>form_password := password'\<rparr>) now db'
            = login checkpw form_data now db))
 \<and> (fst (register hashpw salt user_create now db) = Inr r \<longrightarrow>
       r = \<lparr>User_id = users_autoinc db, User_name = uc_name user_create,
            User_email = uc_email user_create, User_created_at = now, User_updated_at = now\<rparr>)
 \<and> (get_current_user db tok now = Inr r \<longrightarrow>
       (\<exists>u \<in> set (users db).
          r = \<lparr>User_id = u_id u, User_name = u_name u, User_email = u_email u,
               User_created_at = u_created_at u, User_updated_at = u_updated_at u\<rparr>))"
proof -
  let ?g = "\<lambda>u. u\<lparr>u_hashed_password := h u\<rparr>"
  let ?db' = "db\<lparr>users := map ?g (users db)\<rparr>"
  have fe: "find (\<lambda>u. u_email u = e) (map ?g (users db))
              = map_option ?g (find (\<lambda>u. u_email u = e) (users db))"
    for e by (simp add: find_map_same)
  have fi: "find (\<lambda>u. u_id u = i) (map ?g (users db))
              = map_option ?g (find (\<lambda>u. u_id u = i) (users db))"
    for i by (simp add: find_map_same)
  have reg: "fst (register hashpw' salt' (user_create\<lparr>uc_password := password'\<rparr>) now ?db')
         = fst (register hashpw salt user_create now db)"
    by (cases "find (\<lambda>u. u_email u = uc_email user_create) (users db)")
       (simp_all add: register_def fe Let_def User_model_validate_def)
  have gcu: "get_current_user ?db' tok now = get_current_user db tok now"
  proof -
    have "(case find (\<lambda>u. u_id u = i) (users ?db') of
             None \<Rightarrow> Inl credentials_exception | Some user \<Rightarrow> Inr (User_model_validate user))
        = (case find (\<lambda>u. u_id u = i) (users db) of
             None \<Rightarrow> Inl credentials_exception | Some user \<Rightarrow> Inr (User_model_validate user))"
      for i
      by (cases "find (\<lambda>u. u_id u = i) (users db)") (simp_all add: fi project_rehash)
    then show ?thesis
      unfolding get_current_user_def
      by (auto split: sum.splits option.splits)
  qed
  have log: "login checkpw' (form_data\<lparr>form_password := password'\<rparr>) now ?db'
            = login checkpw form_data now db"
    if v: "\<forall>u \<in> set (users db).
            checkpw' password' (h u) = checkpw (form_password form_data) (u_hashed_password u)"
  proof (cases "find (\<lambda>u. u_email u = form_username form_data) (users db)")
    case None
    then show ?thesis by (simp add: login_def fe)
  next
    case (Some u)
    then have "u \<in> set (users db)" by (auto dest: find_SomeD)
    with v have "checkpw' password' (h u) = checkpw (form_password form_data) (u_hashed_password u)"
      by blast
    then show ?thesis
      using Some by (simp add: login_def fe Let_def split: sum.splits)
  qed
  have pr: "r = \<lparr>User_id = users_autoinc db, User_name = uc_name user_create,
            User_email = uc_email user_create, User_created_at = now, User_updated_at = now\<rparr>"
    if "fst (register hashpw salt user_create now db) = Inr r"
    using that
    by (cases "find (\<lambda>u. u_email u = uc_email user_create) (users db)")
       (auto simp: register_def Let_def User_model_validate_def)
  have pg: "\<exists>u \<in> set (users db).
          r = \<lparr>User_id = u_id u, User_name = u_name u, User_email = u_email u,
               User_created_at = u_created_at u, User_updated_at = u_updated_at u\<rparr>"
    if "get_current_user db tok now = Inr r"
    using that unfolding get_current_user_def
    by (auto split: sum.splits option.splits dest!: find_SomeD simp: User_model_validate_def)
  show ?thesis
    unfolding Let_def using reg gcu log pr pg by blast
qed

text \<open>An instance for C8: the sample store with every hash replaced.\<close>

theorem password_hash_never_returned_witness:
  "map (\<lambda>u. Inr (''hash of '' @ u_name u = ''hash of Ana'')) (users db_empty)
     = map (\<lambda>u. bcrypt_checkpw demo_checkpw ''secret1'' (u_hashed_password u)) (users db_empty)
 \<and> login (\<lambda>p hashed. Inr (hashed = ''hash of Ana''))
       \<lparr>form_username = ''ana@x.com'', form_password = ''other''\<rparr> 0
       (db_empty\<lparr>users := map (\<lambda>u. u\<lparr>u_hashed_password := ''hash of '' @ u_name u\<rparr>)
                              (users db_empty)\<rparr>)
     = login (bcrypt_checkpw demo_checkpw)
         \<lparr>form_username = ''ana@x.com'', form_password = ''secret1''\<rparr> 0 db_empty
 \<and> fst (register demo_hashpw ''salt''
           \<lparr>uc_name = ''Caio'', uc_email = ''cai@x.com'', uc_password = ''abcdef''\<rparr>
           5000000 db_empty)
     = Inr \<lparr>User_id = 3, User_name = ''Caio'', User_email = ''cai@x.com'',
            User_created_at = 5000000, User_updated_at = 5000000\<rparr>
 \<and> fst (register (\<lambda>p s. s) ''pepa''
           \<lparr>uc_name = ''Caio'', uc_email = ''cai@x.com'', uc_password = ''zzzzzz''\<rparr>
           5000000
           (db_empty\<lparr>users := map (\<lambda>u. u\<lparr>u_hashed_password := ''hash of '' @ u_name u\<rparr>)
                                  (users db_empty)\<rparr>))
     = fst (register demo_hashpw ''salt''
           \<lparr>uc_name = ''Caio'', uc_email = ''cai@x.com'', uc_password = ''abcdef''\<rparr>
           5000000 db_empty)
 \<and> get_current_user db_empty
       (JWS ALGORITHM \<lparr>payload_sub = Some ''2'', payload_exp = Some 60\<rparr> SECRET_KEY) 0
     = Inr \<lparr>User_id = 2, User_name = ''Bia'', User_email = ''bia@x.com'',
            User_created_at = 2000000, User_updated_at = 2000000\<rparr>
 \<and> get_current_user
       (db_empty\<lparr>users := map (\<lambda>u. u\<lparr>u_hashed_password := ''hash of '' @ u_name u\<rparr>)
                              (users db_empty)\<rparr>)
       (JWS ALGORITHM \<lparr>payload_sub = Some ''2'', payload_exp = Some 60\<rparr> SECRET_KEY) 0
     = get_current_user db_empty
       (JWS ALGORITHM \<lparr>payload_sub = Some ''2'', payload_exp = Some 60\<rparr> SECRET_KEY) 0
 \<and> bia \<in> set (users db_empty)
 \<and> \<lparr>User_id = 2, User_name = ''Bia'', User_email = ''bia@x.com'',
      User_created_at = 2000000, User_updated_at = 2000000\<rparr>
     = \<lparr>User_id = u_id bia, User_name = u_name bia, User_email = u_email bia,
        User_created_at = u_created_at bia, User_updated_at = u_updated_at bia\<rparr>"
proof -
  let ?h = "\<lambda>u. ''hash of '' @ u_name u"
  let ?c = "\<lambda>p hashed. Inr (hashed = ''hash of Ana'') :: error + bool"
  let ?good = "\<lparr>form_username = ''ana@x.com'', form_password = ''secret1''\<rparr>"
  let ?caio = "\<lparr>uc_name = ''Caio'', uc_email = ''cai@x.com'', uc_password = ''abcdef''\<rparr>"
  let ?tok = "JWS ALGORITHM \<lparr>payload_sub = Some ''2'', payload_exp = Some 60\<rparr> SECRET_KEY"
  let ?r = "\<lparr>User_id = 3, User_name = ''Caio'', User_email = ''cai@x.com'',
            User_created_at = 5000000, User_updated_at = 5000000\<rparr>"
  have verdicts: "map (\<lambda>u. Inr (?h u = ''hash of Ana'')) (users db_empty)
     = map (\<lambda>u. bcrypt_checkpw demo_checkpw ''secret1'' (u_hashed_password u)) (users db_empty)"
    by (simp add: db_empty_def ana_def bia_def demo_checkpw_def bcrypt_checkpw_def)
  then have hyp: "\<forall>u \<in> set (users db_empty).
      ?c ''other'' (?h u) = bcrypt_checkpw demo_checkpw (form_password ?good) (u_hashed_password u)"
    by (simp add: map_eq_conv)
  have reg: "fst (register demo_hashpw ''salt'' ?caio 5000000 db_empty) = Inr ?r"
    by code_simp
  have gcu: "get_current_user db_empty ?tok 0
     = Inr \<lparr>User_id = 2, User_name = ''Bia'', User_email = ''bia@x.com'',
            User_created_at = 2000000, User_updated_at = 2000000\<rparr>"
    by code_simp
  have b: "bia \<in> set (users db_empty)"
          "\<lparr>User_id = 2, User_name = ''Bia'', User_email = ''bia@x.com'',
             User_created_at = 2000000, User_updated_at = 2000000\<rparr>
           = \<lparr>User_id = u_id bia, User_name = u_name bia, User_email = u_email bia,
              User_created_at = u_created_at bia, User_updated_at = u_updated_at bia\<rparr>"
    by (simp_all add: db_empty_def bia_def)
  note th = password_hash_never_returned [where db = db_empty and h = ?h and checkpw' = ?c
      and checkpw = "bcrypt_checkpw demo_checkpw" and password' = "''other''" and form_data = ?good and now = 0
      and tok = ?tok, unfolded Let_def]
  note th2 = password_hash_never_returned [where db = db_empty and h = ?h
      and hashpw' = "\<lambda>p s. s" and salt' = "''pepa''" and password' = "''zzzzzz''"
      and user_create = ?caio and hashpw = demo_hashpw and salt = "''salt''" and now = 5000000,
      unfolded Let_def]
  have l: "login ?c (?good\<lparr>form_password := ''other''\<rparr>) 0
       (db_empty\<lparr>users := map (\<lambda>u. u\<lparr>u_hashed_password := ?h u\<rparr>) (users db_empty)\<rparr>)
     = login (bcrypt_checkpw demo_checkpw) ?good 0 db_empty"
    using th hyp by blast
  have g: "get_current_user
       (db_empty\<lparr>users := map (\<lambda>u. u\<lparr>u_hashed_password := ?h u\<rparr>) (users db_empty)\<rparr>) ?tok 0
     = get_current_user db_empty ?tok 0"
    using th by blast
  have r: "fst (register (\<lambda>p s. s) ''pepa'' (?caio\<lparr>uc_password := ''zzzzzz''\<rparr>) 5000000
           (db_empty\<lparr>users := map (\<lambda>u. u\<lparr>u_hashed_password := ?h u\<rparr>) (users db_empty)\<rparr>))
     = fst (register demo_hashpw ''salt'' ?caio 5000000 db_empty)"
    using th2 by blast
  from verdicts l reg r gcu g b show ?thesis by simp
qed

end
